theory Spec2Isabelle
  imports Main "HOL-Library.AList" "HOL-Library.Char_ord" "HOL-Library.List_Lexorder"
    "HOL-Library.Multiset"
begin

section \<open>The HTML refactoring engine of html-refactor\<close>

text \<open>
  A shallow embedding of the refactoring engine (\<^verbatim>\<open>html-refactor.js\<close>: the functions
  \<^verbatim>\<open>normalizeStyleString\<close> to \<^verbatim>\<open>runRefactorProcess\<close>). JavaScript strings are
  modelled as \<^typ>\<open>string\<close>, so a character is a code unit below 256. The characters the
  code inspects by name (the filename class \<^verbatim>\<open>[a-zA-Z0-9_.-]\<close>, \<^verbatim>\<open>;\<close>, \<^verbatim>\<open>_\<close>, the
  backslash) are ASCII; the white space of \<^verbatim>\<open>trim\<close> and the letters of
  \<^verbatim>\<open>toLowerCase\<close> are taken over that whole range.

  The libraries the script imports are its host environment. They are a parameter of the
  model, the record \<open>host\<close>: the SHA-256 hex digest of \<^verbatim>\<open>crypto\<close>, the HTML parser
  \<^verbatim>\<open>cheerio.load\<close>, the functions of \<^verbatim>\<open>path\<close>, and the clock \<^verbatim>\<open>Date.now\<close> (a
  function of the position of the script being processed, since every call may return a
  new value).
\<close>

subsection \<open>Documents\<close>

text \<open>
  The tree a \<^verbatim>\<open>cheerio\<close> handle holds: text nodes and elements with a tag name, an
  ordered attribute list and children. A document is the forest below the root.
\<close>

datatype node = Text string | Element string "(string \<times> string) list" "node list"

type_synonym dom = "node list"

record host =
  sha256hex :: "string \<Rightarrow> string"
  cheerio_load :: "string \<Rightarrow> dom"
  path_dirname :: "string \<Rightarrow> string"
  path_basename :: "string \<Rightarrow> string \<Rightarrow> string"
  path_join :: "string \<Rightarrow> string \<Rightarrow> string"
  path_resolve :: "string \<Rightarrow> string \<Rightarrow> string"
  path_relative :: "string \<Rightarrow> string \<Rightarrow> string"
  date_now :: "nat \<Rightarrow> nat"

record config =
  projectRoot :: string
  cssOutputDirStrategy :: string
  stylesOutputDir :: string
  jsOutputDirStrategy :: string
  jsCentralOutputDir :: string
  compiledCssLinkDir :: string
  htmlPrefixesToOmitFromCssName :: "string list"
  maxFilenameLength :: int
  createBackups :: bool
  copyToDist :: bool
  distDir :: string
  distSourceRoot :: string

subsection \<open>String primitives of JavaScript\<close>

text \<open>
  The characters \<^verbatim>\<open>String.prototype.trim\<close> strips, white space and line terminators:
  below 256 they are the space, the tab, the four of U+000A to U+000D, and the no-break
  space U+00A0.
\<close>

definition isSpace :: "char \<Rightarrow> bool" where
  "isSpace c =
     (c \<in> set [CHR '' '', CHR 0x09, CHR 0x0A, CHR 0x0B, CHR 0x0C, CHR 0x0D, CHR 0xA0])"

definition trim :: "string \<Rightarrow> string" where
  "trim s = rev (dropWhile isSpace (rev (dropWhile isSpace s)))"

text \<open>\<^verbatim>\<open>s.split(c)\<close> for a one-character separator; the result is never empty.\<close>

fun splitOn :: "char \<Rightarrow> string \<Rightarrow> string list" where
  "splitOn c [] = [[]]"
| "splitOn c (x # xs) =
     (if x = c then [] # splitOn c xs
      else (case splitOn c xs of [] \<Rightarrow> [[x]] | y # ys \<Rightarrow> (x # y) # ys))"

fun joinWith :: "string \<Rightarrow> string list \<Rightarrow> string" where
  "joinWith sep [] = []"
| "joinWith sep [x] = x"
| "joinWith sep (x # y # zs) = x @ sep @ joinWith sep (y # zs)"

text \<open>\<^verbatim>\<open>s.startsWith(p)\<close>, \<^verbatim>\<open>s.endsWith(p)\<close> and \<^verbatim>\<open>s.includes(p)\<close>.\<close>

definition startsWith :: "string \<Rightarrow> string \<Rightarrow> bool" where
  "startsWith s p = (take (length p) s = p)"

definition endsWith :: "string \<Rightarrow> string \<Rightarrow> bool" where
  "endsWith s p = (length p \<le> length s \<and> drop (length s - length p) s = p)"

fun includesStr :: "string \<Rightarrow> string \<Rightarrow> bool" where
  "includesStr [] p = (p = [])"
| "includesStr (x # xs) p = (startsWith (x # xs) p \<or> includesStr xs p)"

text \<open>\<^verbatim>\<open>s.replace(/c/g, r)\<close> for a single character \<open>c\<close>.\<close>

definition replaceChar :: "char \<Rightarrow> string \<Rightarrow> string \<Rightarrow> string" where
  "replaceChar c r s = concat (map (\<lambda>x. if x = c then r else [x]) s)"

text \<open>
  \<^verbatim>\<open>s.toLowerCase()\<close>: below 256 the letters with a lower case are \<^verbatim>\<open>A\<close> to
  \<^verbatim>\<open>Z\<close> and U+00C0 to U+00DE without the multiplication sign U+00D7.
\<close>

definition upperCaseLetters :: string where
  "upperCaseLetters =
     ''ABCDEFGHIJKLMNOPQRSTUVWXYZ''
     @ [CHR 0xC0, CHR 0xC1, CHR 0xC2, CHR 0xC3, CHR 0xC4, CHR 0xC5, CHR 0xC6, CHR 0xC7, CHR 0xC8,
        CHR 0xC9, CHR 0xCA, CHR 0xCB, CHR 0xCC, CHR 0xCD, CHR 0xCE, CHR 0xCF, CHR 0xD0, CHR 0xD1,
        CHR 0xD2, CHR 0xD3, CHR 0xD4, CHR 0xD5, CHR 0xD6, CHR 0xD8, CHR 0xD9, CHR 0xDA, CHR 0xDB,
        CHR 0xDC, CHR 0xDD, CHR 0xDE]"

definition lowerCaseLetters :: string where
  "lowerCaseLetters =
     ''abcdefghijklmnopqrstuvwxyz''
     @ [CHR 0xE0, CHR 0xE1, CHR 0xE2, CHR 0xE3, CHR 0xE4, CHR 0xE5, CHR 0xE6, CHR 0xE7, CHR 0xE8,
        CHR 0xE9, CHR 0xEA, CHR 0xEB, CHR 0xEC, CHR 0xED, CHR 0xEE, CHR 0xEF, CHR 0xF0, CHR 0xF1,
        CHR 0xF2, CHR 0xF3, CHR 0xF4, CHR 0xF5, CHR 0xF6, CHR 0xF8, CHR 0xF9, CHR 0xFA, CHR 0xFB,
        CHR 0xFC, CHR 0xFD, CHR 0xFE]"

definition toLowerCase :: "string \<Rightarrow> string" where
  "toLowerCase s =
     map (\<lambda>c. case map_of (zip upperCaseLetters lowerCaseLetters) c of
                None \<Rightarrow> c
              | Some l \<Rightarrow> l) s"

text \<open>The decimal numeral a template literal prints for a non-negative integer.\<close>

fun dec :: "nat \<Rightarrow> string" where
  "dec n = (if n < 10 then [''0123456789'' ! n]
            else dec (n div 10) @ [''0123456789'' ! (n mod 10)])"

declare dec.simps [simp del]

subsection \<open>Utility functions\<close>

text \<open>
  \<^verbatim>\<open>normalizeStyleString\<close>: split on \<^verbatim>\<open>;\<close>, trim every piece, drop the empty ones, sort
  (the default sort of JavaScript compares strings by code units, here the lexicographic
  order on \<^typ>\<open>string\<close>), join with \<^verbatim>\<open>;\<close>.
\<close>

definition declarations :: "string \<Rightarrow> string list" where
  "declarations style = filter (\<lambda>s. s \<noteq> []) (map trim (splitOn CHR '';'' style))"

definition normalizeStyleString :: "string \<Rightarrow> string" where
  "normalizeStyleString style =
     (if style = [] then [] else joinWith '';'' (sort (declarations style)))"

definition generateClassFromStyle :: "host \<Rightarrow> string \<Rightarrow> string" where
  "generateClassFromStyle H normalizedStyle =
     (let hash = sha256hex H normalizedStyle in ''css-'' @ take 8 hash)"

text \<open>\<^verbatim>\<open>FILENAME_SANITIZATION_REGEX = /[^a-zA-Z0-9_.-]/g\<close>, replaced by \<^verbatim>\<open>_\<close>.\<close>

definition isSafeChar :: "char \<Rightarrow> bool" where
  "isSafeChar c =
     (c \<in> set ''abcdefghijklmnopqrstuvwxyzABCDEFGHIJKLMNOPQRSTUVWXYZ0123456789_.-'')"

text \<open>\<^verbatim>\<open>replace(/_+/g, '_')\<close>.\<close>

fun collapseUnderscores :: "string \<Rightarrow> string" where
  "collapseUnderscores (a # b # cs) =
     (if a = CHR ''_'' \<and> b = CHR ''_'' then collapseUnderscores (b # cs)
      else a # collapseUnderscores (b # cs))"
| "collapseUnderscores cs = cs"

definition sanitizeStringForFilename :: "string \<Rightarrow> string" where
  "sanitizeStringForFilename str =
     (if str = [] then []
      else collapseUnderscores (map (\<lambda>c. if isSafeChar c then c else CHR ''_'') str))"

text \<open>
  \<^verbatim>\<open>generateSafeBaseName(originalName, context, config)\<close>. The \<^verbatim>\<open>context\<close> string is
  only logged. \<open>maxLengthOf\<close> is \<^verbatim>\<open>config.maxFilenameLength || 100\<close>, which falls
  back to 100 for the value 0.
\<close>

definition maxLengthOf :: "config \<Rightarrow> int" where
  "maxLengthOf cfg = (if maxFilenameLength cfg = 0 then 100 else maxFilenameLength cfg)"

definition generateSafeBaseName :: "host \<Rightarrow> string \<Rightarrow> string \<Rightarrow> config \<Rightarrow> string" where
  "generateSafeBaseName H originalName context cfg =
     (let sanitizedOriginalName = sanitizeStringForFilename originalName;
          maxLength = maxLengthOf cfg
      in if int (length sanitizedOriginalName) > maxLength then
           (let hash = take 8 (sha256hex H originalName);
                truncateLength = maxLength - int (length hash) - 1;
                actualTruncateLength = max 10 (if truncateLength > 0 then truncateLength else 10);
                truncatedName = take (nat actualTruncateLength) sanitizedOriginalName
            in truncatedName @ ''_'' @ hash)
         else sanitizedOriginalName)"


text \<open>
  \<^verbatim>\<open>generateCssFileBaseName(htmlFilePath, config)\<close>. \<open>backslashesToSlashes\<close> is
  \<^verbatim>\<open>replace(/\\/g, '/')\<close>, \<open>stripSlashes\<close> is \<^verbatim>\<open>replace(/^\/+|\/+$/g, '')\<close>; only
  the first prefix that matches is stripped.
\<close>

definition backslashesToSlashes :: "string \<Rightarrow> string" where
  "backslashesToSlashes s = map (\<lambda>c. if c = CHR 0x5C then CHR ''/'' else c) s"

definition stripSlashes :: "string \<Rightarrow> string" where
  "stripSlashes p =
     rev (dropWhile (\<lambda>c. c = CHR ''/'') (rev (dropWhile (\<lambda>c. c = CHR ''/'') p)))"

fun stripFirstPrefix :: "string list \<Rightarrow> string \<Rightarrow> string" where
  "stripFirstPrefix [] p = p"
| "stripFirstPrefix (prefixToOmit # rest) p =
     (if startsWith p (prefixToOmit @ ''/'') then drop (length (prefixToOmit @ ''/'')) p
      else stripFirstPrefix rest p)"

definition generateCssFileBaseName :: "host \<Rightarrow> string \<Rightarrow> config \<Rightarrow> string" where
  "generateCssFileBaseName H htmlFilePath cfg =
     (let relativeHtmlPath = backslashesToSlashes (path_relative H (projectRoot cfg) htmlFilePath);
          prefixesToOmit =
            map (\<lambda>p. stripSlashes (backslashesToSlashes p)) (htmlPrefixesToOmitFromCssName cfg);
          effectivePathForNaming = stripFirstPrefix prefixesToOmit relativeHtmlPath;
          htmlFileBasePart = path_basename H effectivePathForNaming ''.html'';
          htmlFileDirPart = path_dirname H effectivePathForNaming;
          cssFileBaseCandidate =
            (if htmlFileDirPart = [] \<or> htmlFileDirPart = ''.'' then htmlFileBasePart
             else map (\<lambda>c. if c = CHR ''/'' \<or> c = CHR 0x5C then CHR ''_'' else c) htmlFileDirPart
                  @ ''_'' @ htmlFileBasePart)
      in generateSafeBaseName H cssFileBaseCandidate ''CSS'' cfg)"

subsection \<open>The cheerio operations the script uses\<close>

text \<open>
  \<^verbatim>\<open>$(el).html()\<close> and \<^verbatim>\<open>$.html()\<close> serialise a forest. For a \<^verbatim>\<open>style\<close> or
  \<^verbatim>\<open>script\<close> element, whose children are text nodes, the result is their text. A
  void element is written as its start tag alone, without content and end tag.
\<close>

definition voidElements :: "string list" where
  "voidElements =
     [''area'', ''base'', ''basefont'', ''bgsound'', ''br'', ''col'', ''embed'', ''frame'', ''hr'',
      ''img'', ''input'', ''keygen'', ''link'', ''meta'', ''param'', ''source'', ''track'', ''wbr'']"

fun renderNode :: "node \<Rightarrow> string" where
  "renderNode (Text t) = t"
| "renderNode (Element tg as ch) =
     ''<'' @ tg @ concat (map (\<lambda>kv. '' '' @ fst kv @ ''='' @ [CHR 0x22] @ snd kv @ [CHR 0x22]) as)
     @ ''>''
     @ (if tg \<in> set voidElements then []
        else concat (map renderNode ch) @ ''</'' @ tg @ ''>'')"

definition html :: "dom \<Rightarrow> string" where
  "html ns = concat (map renderNode ns)"

text \<open>
  A JavaScript string is falsy when it is absent or empty: \<open>truthy\<close> reads an attribute
  or a content string the way \<^verbatim>\<open>if (x)\<close> does, \<open>blank\<close> is
  \<^verbatim>\<open>!x || x.trim() === ''\<close>.
\<close>

definition blank :: "string \<Rightarrow> bool" where
  "blank s = (trim s = [])"

definition truthy :: "string option \<Rightarrow> bool" where
  "truthy v = (case v of None \<Rightarrow> False | Some s \<Rightarrow> (if s = [] then False else True))"

text \<open>
  \<^verbatim>\<open>addClass\<close> for one class name without white space: the attribute is created when
  it is absent or empty, and the name is appended unless it is already listed.
\<close>

definition addClass :: "string \<Rightarrow> (string \<times> string) list \<Rightarrow> (string \<times> string) list" where
  "addClass name as =
     (if truthy (map_of as ''class'') then
        (let setClass = '' '' @ the (map_of as ''class'') @ '' ''
         in if includesStr setClass ('' '' @ name @ '' '')
            then AList.update ''class'' (trim setClass) as
            else AList.update ''class'' (trim (setClass @ name @ '' '')) as)
      else AList.update ''class'' (trim name) as)"

definition removeAttr :: "string \<Rightarrow> (string \<times> string) list \<Rightarrow> (string \<times> string) list" where
  "removeAttr k as = AList.delete k as"

text \<open>
  \<^verbatim>\<open>$(selector).each(callback)\<close>: the callback sees every element in document order
  with the state it has built so far, and answers with the new state and what becomes
  of the element: its attributes are replaced, its content is emptied as well
  (\<^verbatim>\<open>html('')\<close>), or it is removed. The selection is made before the first callback runs,
  so the callback also reaches the elements below one it has emptied or removed.
\<close>

datatype action = Keep "(string \<times> string) list" | Emptied "(string \<times> string) list" | Removed

fun each ::
  "('s \<Rightarrow> string \<Rightarrow> (string \<times> string) list \<Rightarrow> dom \<Rightarrow> 's \<times> action) \<Rightarrow> 's \<Rightarrow> dom \<Rightarrow> 's \<times> dom"
where
  "each f s [] = (s, [])"
| "each f s (Text t # ns) = (case each f s ns of (s', ns') \<Rightarrow> (s', Text t # ns'))"
| "each f s (Element tg as ch # ns) =
     (case f s tg as ch of (s1, act) \<Rightarrow>
      case each f s1 ch of (s2, ch') \<Rightarrow>
      case each f s2 ns of (s3, ns') \<Rightarrow>
        (s3, (case act of
                Keep as' \<Rightarrow> [Element tg as' ch']
              | Emptied as' \<Rightarrow> [Element tg as' []]
              | Removed \<Rightarrow> []) @ ns'))"

text \<open>The elements of a forest in document order.\<close>

fun elems :: "dom \<Rightarrow> (string \<times> (string \<times> string) list \<times> dom) list" where
  "elems [] = []"
| "elems (Text t # ns) = elems ns"
| "elems (Element tg as ch # ns) = (tg, as, ch) # elems ch @ elems ns"


subsection \<open>The file system and the log\<close>

text \<open>
  The state outside the script: the files (a path is present when
  \<^verbatim>\<open>fs.pathExists\<close> holds, and \<^verbatim>\<open>fs.readFile\<close> of an absent path throws), the
  list of modifying calls made so far, and the messages of the logger that report a
  decision. A modifying call succeeds; \<^verbatim>\<open>copyFile\<close> needs its source.
\<close>

datatype effect = EnsureDir string | WriteFile string string | CopyFile string string

datatype report =
    DryRunSaveCss string
  | DryRunCssSkip string
  | DryRunCssAppend string
  | DryRunCssCreate string
  | DryRunLinkAdded string
  | DryRunExtractScript string
  | DryRunScriptSrc string
  | DryRunHtmlModified string
  | DryRunCopyHtml string
  | DryRunCopyJs string
  | ScriptConflict string
  | CopyFailed string
  | ProcessingError string

record world =
  files :: "string \<rightharpoonup> string"
  effects :: "effect list"
  reports :: "report list"

definition ensureDir :: "string \<Rightarrow> world \<Rightarrow> world" where
  "ensureDir p W = W\<lparr>effects := effects W @ [EnsureDir p]\<rparr>"

definition writeFile :: "string \<Rightarrow> string \<Rightarrow> world \<Rightarrow> world" where
  "writeFile p c W = W\<lparr>files := (files W)(p \<mapsto> c), effects := effects W @ [WriteFile p c]\<rparr>"

definition copyFile :: "string \<Rightarrow> string \<Rightarrow> world \<Rightarrow> world option" where
  "copyFile src dst W =
     (case files W src of
        None \<Rightarrow> None
      | Some c \<Rightarrow> Some (W\<lparr>files := (files W)(dst \<mapsto> c), effects := effects W @ [CopyFile src dst]\<rparr>))"

definition logReport :: "report \<Rightarrow> world \<Rightarrow> world" where
  "logReport r W = W\<lparr>reports := reports W @ [r]\<rparr>"

subsection \<open>Style extraction\<close>

text \<open>
  Every \<^verbatim>\<open>allExtractedCss += ...\<close> of \<^verbatim>\<open>extractCssFromHtml\<close> appends one chunk: the
  content of a \<^verbatim>\<open>style\<close> element, or the rule for a new style. \<open>renderChunk\<close> is the
  text of the chunk.
\<close>

datatype css_chunk = StyleTagChunk nat string | RuleChunk string string

abbreviation nl :: string where
  "nl \<equiv> [CHR 0x0A]"

fun renderChunk :: "string \<Rightarrow> css_chunk \<Rightarrow> string" where
  "renderChunk htmlFileBaseName (StyleTagChunk index styleContent) =
     nl @ ''/* Extracted from <style> tag in '' @ htmlFileBaseName @ ''.html (index ''
     @ dec index @ '') */'' @ nl @ styleContent @ nl"
| "renderChunk htmlFileBaseName (RuleChunk className normalizedStyle) =
     nl @ ''/* Style for .'' @ className @ '' from '' @ htmlFileBaseName @ ''.html */'' @ nl
     @ ''.'' @ className @ '' {'' @ nl @ ''  ''
     @ replaceChar CHR '';'' ('';'' @ nl @ ''  '') normalizedStyle @ nl @ ''}'' @ nl"

text \<open>The callback of \<^verbatim>\<open>$('style').each\<close>; the state is the index, the chunks, the flag.\<close>

definition styleTagCallback ::
  "nat \<times> css_chunk list \<times> bool \<Rightarrow> string \<Rightarrow> (string \<times> string) list \<Rightarrow> dom
   \<Rightarrow> (nat \<times> css_chunk list \<times> bool) \<times> action" where
  "styleTagCallback s tg as ch =
     (case s of (index, chunks, cssModifiedInHtml) \<Rightarrow>
        if tg = ''style'' then
          (let styleContent = html ch
           in if blank styleContent then ((index + 1, chunks, cssModifiedInHtml), Keep as)
              else ((index + 1, chunks @ [StyleTagChunk index (trim styleContent)], True), Removed))
        else (s, Keep as))"

text \<open>
  The callback of \<^verbatim>\<open>$('[style]').each\<close>; the state is \<^verbatim>\<open>styleMap\<close>, the chunks, the
  flag.
\<close>

definition styleAttrCallback ::
  "host \<Rightarrow> (string \<rightharpoonup> string) \<times> css_chunk list \<times> bool \<Rightarrow> string \<Rightarrow> (string \<times> string) list \<Rightarrow> dom
   \<Rightarrow> ((string \<rightharpoonup> string) \<times> css_chunk list \<times> bool) \<times> action" where
  "styleAttrCallback H s tg as ch =
     (case s of (styleMap, chunks, cssModifiedInHtml) \<Rightarrow>
        case map_of as ''style'' of
          None \<Rightarrow> (s, Keep as)
        | Some rawStyle \<Rightarrow>
            if blank rawStyle then (s, Keep as)
            else
              (let normalizedStyle = normalizeStyleString rawStyle
               in case styleMap normalizedStyle of
                    Some className \<Rightarrow>
                      ((styleMap, chunks, True), Keep (removeAttr ''style'' (addClass className as)))
                  | None \<Rightarrow>
                      (let className = generateClassFromStyle H normalizedStyle
                       in ((styleMap(normalizedStyle \<mapsto> className),
                            chunks @ [RuleChunk className normalizedStyle], True),
                           Keep (removeAttr ''style'' (addClass className as))))))"

definition extractCssChunks :: "host \<Rightarrow> dom \<Rightarrow> css_chunk list \<times> bool \<times> dom" where
  "extractCssChunks H d =
     (case each styleTagCallback (0, [], False) d of
        ((index, chunks1, modified1), d1) \<Rightarrow>
          case each (styleAttrCallback H) (Map.empty, chunks1, modified1) d1 of
            ((styleMap, chunks2, modified2), d2) \<Rightarrow> (chunks2, modified2, d2))"

definition extractCssFromHtml :: "host \<Rightarrow> dom \<Rightarrow> string \<Rightarrow> string \<Rightarrow> string \<times> bool \<times> dom" where
  "extractCssFromHtml H d htmlFilePath htmlFileBaseName =
     (case extractCssChunks H d of
        (chunks, cssModifiedInHtml, d') \<Rightarrow>
          (trim (concat (map (renderChunk htmlFileBaseName) chunks)), cssModifiedInHtml, d'))"

subsection \<open>Saving the extracted CSS\<close>

definition cssSeparator :: string where
  "cssSeparator = nl @ nl @ ''/* --- Appended styles from HTML Refactor --- */'' @ nl"

definition cssFilePath :: "host \<Rightarrow> config \<Rightarrow> string \<Rightarrow> string \<Rightarrow> string" where
  "cssFilePath H cfg htmlFilePath cssFileBaseName =
     (let newCssFileName = cssFileBaseName @ ''.css''
      in if cssOutputDirStrategy cfg = ''relativeToHtml''
         then path_join H (path_dirname H htmlFilePath) newCssFileName
         else path_join H (path_resolve H (projectRoot cfg) (stylesOutputDir cfg)) newCssFileName)"

definition saveCssFile ::
  "host \<Rightarrow> world \<Rightarrow> string \<Rightarrow> string \<Rightarrow> string \<Rightarrow> config \<Rightarrow> bool \<Rightarrow> string option \<times> world" where
  "saveCssFile H W cssContent cssFileBaseName htmlFilePath cfg isDryRun =
     (if blank cssContent then (None, W)
      else
        (let newCssFileFullPath = cssFilePath H cfg htmlFilePath cssFileBaseName;
             relativeNewCssPath =
               backslashesToSlashes (path_relative H (projectRoot cfg) newCssFileFullPath)
         in if isDryRun then
              (let W1 = logReport (DryRunSaveCss relativeNewCssPath) W
               in case files W newCssFileFullPath of
                    None \<Rightarrow> (Some newCssFileFullPath, logReport (DryRunCssCreate relativeNewCssPath) W1)
                  | Some existingContent \<Rightarrow>
                      if includesStr existingContent cssContent
                      then (Some newCssFileFullPath, logReport (DryRunCssSkip relativeNewCssPath) W1)
                      else if blank existingContent then (Some newCssFileFullPath, W1)
                      else (Some newCssFileFullPath, logReport (DryRunCssAppend relativeNewCssPath) W1))
            else
              (let W1 = ensureDir (path_dirname H newCssFileFullPath) W
               in case files W newCssFileFullPath of
                    None \<Rightarrow> (Some newCssFileFullPath, writeFile newCssFileFullPath cssContent W1)
                  | Some existingContent \<Rightarrow>
                      if includesStr existingContent cssContent then (Some newCssFileFullPath, W1)
                      else
                        (let existingCssContent =
                               (if blank existingContent then existingContent
                                else existingContent @ cssSeparator);
                             finalContentToWrite =
                               (if endsWith existingCssContent cssSeparator then existingCssContent
                                else existingCssContent @ (if existingCssContent = [] then [] else nl))
                               @ cssContent
                         in (Some newCssFileFullPath, writeFile newCssFileFullPath finalContentToWrite W1)))))"


subsection \<open>The stylesheet link\<close>

text \<open>
  The selection \<^verbatim>\<open>$('head link[rel="stylesheet"]')\<close>: the \<^verbatim>\<open>link\<close> elements below
  a \<^verbatim>\<open>head\<close> element whose \<^verbatim>\<open>rel\<close> is \<^verbatim>\<open>stylesheet\<close>, by their attributes. In
  an HTML document the selector compares the value of \<^verbatim>\<open>rel\<close> without regard to case.
\<close>

definition relIsStylesheet :: "(string \<times> string) list \<Rightarrow> bool" where
  "relIsStylesheet as =
     (case map_of as ''rel'' of None \<Rightarrow> False | Some v \<Rightarrow> toLowerCase v = ''stylesheet'')"

fun headStylesheetLinks :: "bool \<Rightarrow> dom \<Rightarrow> (string \<times> string) list list" where
  "headStylesheetLinks inHead [] = []"
| "headStylesheetLinks inHead (Text t # ns) = headStylesheetLinks inHead ns"
| "headStylesheetLinks inHead (Element tg as ch # ns) =
     (if inHead \<and> tg = ''link'' \<and> relIsStylesheet as then [as] else [])
     @ headStylesheetLinks (inHead \<or> tg = ''head'') ch
     @ headStylesheetLinks inHead ns"

text \<open>\<^verbatim>\<open>$('head').length\<close> and \<^verbatim>\<open>$('head').append(fragment)\<close>.\<close>

definition countHeads :: "dom \<Rightarrow> nat" where
  "countHeads d = length (filter (\<lambda>e. fst e = ''head'') (elems d))"

fun appendToHeads :: "dom \<Rightarrow> dom \<Rightarrow> dom" where
  "appendToHeads fragment [] = []"
| "appendToHeads fragment (Text t # ns) = Text t # appendToHeads fragment ns"
| "appendToHeads fragment (Element tg as ch # ns) =
     Element tg as (appendToHeads fragment ch @ (if tg = ''head'' then fragment else []))
     # appendToHeads fragment ns"

text \<open>
  The test of the scan, \<^verbatim>\<open>existingHref && existingHref.replace(/\\/g, '/') === href\<close>,
  and the nodes of the appended markup. The markup \<^verbatim>\<open><head></head>\<close> that
  \<^verbatim>\<open>$.root().prepend\<close> is given makes no node: the parser of fragments drops a
  \<^verbatim>\<open>head\<close> tag. So in a document without \<^verbatim>\<open>head\<close> nothing is created, the link
  is appended to no element, and the function still returns \<^verbatim>\<open>true\<close>.
\<close>

definition headFragment :: dom where
  "headFragment = []"

definition hrefMatches :: "string \<Rightarrow> (string \<times> string) list \<Rightarrow> bool" where
  "hrefMatches href as =
     (truthy (map_of as ''href'') \<and> backslashesToSlashes (the (map_of as ''href'')) = href)"

definition linkFragment :: "string \<Rightarrow> dom" where
  "linkFragment href =
     [Text (nl @ ''    ''),
      Element ''link'' [(''rel'', ''stylesheet''), (''href'', href)] [],
      Text (nl @ ''  '')]"

definition cssLinkHref :: "host \<Rightarrow> string \<Rightarrow> string \<Rightarrow> config \<Rightarrow> string" where
  "cssLinkHref H htmlFilePath cssFileBaseName cfg =
     (let targetCssFileName = cssFileBaseName @ ''.css'';
          htmlFileDir = path_dirname H htmlFilePath;
          compiledCssDirAbsolute = path_resolve H (projectRoot cfg) (compiledCssLinkDir cfg);
          targetCssFileInFinalOutputAbsolute = path_join H compiledCssDirAbsolute targetCssFileName
      in backslashesToSlashes (path_relative H htmlFileDir targetCssFileInFinalOutputAbsolute))"

definition addCssLinkToHtmlHead :: "host \<Rightarrow> dom \<Rightarrow> string \<Rightarrow> string \<Rightarrow> config \<Rightarrow> bool \<times> dom" where
  "addCssLinkToHtmlHead H d htmlFilePath cssFileBaseName cfg =
     (let relativeLinkPathFromHtml = cssLinkHref H htmlFilePath cssFileBaseName cfg;
          linkAlreadyExists =
            list_ex (hrefMatches relativeLinkPathFromHtml) (headStylesheetLinks False d)
      in if linkAlreadyExists then (False, d)
         else (True, appendToHeads (linkFragment relativeLinkPathFromHtml)
                       (if countHeads d = 0 then headFragment @ d else d)))"

subsection \<open>Script extraction\<close>

record jsFileData =
  sourcePath :: string
  content :: string

text \<open>
  The state of the loop of \<^verbatim>\<open>extractJsFromHtml\<close>: the index among all
  \<^verbatim>\<open>script\<close> elements, the position \<^verbatim>\<open>i\<close> among the scripts to process, the world,
  \<^verbatim>\<open>extractedJsFiles\<close> and \<^verbatim>\<open>jsModifiedInHtml\<close>.
\<close>

record js_loop =
  originalIndex :: nat
  loopIndex :: nat
  loopWorld :: world
  extractedJsFiles :: "jsFileData list"
  jsModifiedInHtml :: bool

definition isInlineScript :: "(string \<times> string) list \<Rightarrow> dom \<Rightarrow> bool" where
  "isInlineScript as ch = (\<not> truthy (map_of as ''src'') \<and> \<not> blank (html ch))"

definition scriptTagsToProcess :: "dom \<Rightarrow> (nat \<times> (string \<times> string) list \<times> dom) list" where
  "scriptTagsToProcess d =
     filter (\<lambda>(index, as, ch). isInlineScript as ch)
       (enumerate 0 (map snd (filter (\<lambda>e. fst e = ''script'') (elems d))))"

definition jsFilePath :: "host \<Rightarrow> config \<Rightarrow> string \<Rightarrow> string \<Rightarrow> string" where
  "jsFilePath H cfg htmlFilePath jsFileName =
     (if jsOutputDirStrategy cfg = ''centralized''
      then path_join H (path_resolve H (projectRoot cfg) (jsCentralOutputDir cfg)) jsFileName
      else path_join H (path_dirname H htmlFilePath) jsFileName)"

definition jsLoggingPath :: "host \<Rightarrow> config \<Rightarrow> string \<Rightarrow> string \<Rightarrow> string" where
  "jsLoggingPath H cfg htmlFilePath jsFileName =
     backslashesToSlashes
       (if jsOutputDirStrategy cfg = ''centralized''
        then path_join H (jsCentralOutputDir cfg) jsFileName
        else path_relative H (projectRoot cfg) (jsFilePath H cfg htmlFilePath jsFileName))"

definition jsSrcAttr :: "host \<Rightarrow> config \<Rightarrow> string \<Rightarrow> string \<Rightarrow> string" where
  "jsSrcAttr H cfg htmlFilePath jsFileName =
     backslashesToSlashes
       (if jsOutputDirStrategy cfg = ''centralized''
        then path_relative H (path_dirname H htmlFilePath) (jsFilePath H cfg htmlFilePath jsFileName)
        else jsFileName)"

text \<open>
  The suffix of the file name for the script with the given index among all
  \<^verbatim>\<open>script\<close> elements, with \<open>n\<close> the number of scripts to process.
\<close>

definition scriptSuffix :: "nat \<Rightarrow> nat \<Rightarrow> string" where
  "scriptSuffix n index = (if n > 1 then ''_s'' @ dec (index + 1) else [])"

text \<open>
  The body of the loop for one script to process: the file name, the dry-run branch, the
  conflict branch, the write and the update of the element.
\<close>

definition extractScriptTag ::
  "host \<Rightarrow> config \<Rightarrow> bool \<Rightarrow> string \<Rightarrow> string \<Rightarrow> nat \<Rightarrow> js_loop \<Rightarrow> (string \<times> string) list \<Rightarrow> dom
   \<Rightarrow> js_loop \<times> action" where
  "extractScriptTag H cfg isDryRun htmlFilePath safeJsFileBase n st as ch =
     (let scriptContent = trim (html ch);
          suffix = scriptSuffix n (originalIndex st);
          jsFileNameBase = safeJsFileBase @ suffix;
          jsFileNameForSrcAttr = jsFileNameBase @ ''.js'';
          jsFileFullPath = jsFilePath H cfg htmlFilePath jsFileNameForSrcAttr;
          W = loopWorld st
      in if isDryRun then
           (st\<lparr>originalIndex := originalIndex st + 1, loopIndex := loopIndex st + 1,
               loopWorld :=
                 logReport (DryRunScriptSrc (jsSrcAttr H cfg htmlFilePath jsFileNameForSrcAttr))
                   (logReport (DryRunExtractScript
                      (jsLoggingPath H cfg htmlFilePath jsFileNameForSrcAttr)) W),
               extractedJsFiles := extractedJsFiles st
                 @ [\<lparr>sourcePath = jsFileFullPath, content = scriptContent\<rparr>],
               jsModifiedInHtml := True\<rparr>,
            Keep as)
         else
           (let conflict = (case files W jsFileFullPath of None \<Rightarrow> False | Some c \<Rightarrow> True);
                fileName =
                  (if conflict
                   then jsFileNameBase @ ''-conflict-'' @ dec (date_now H (loopIndex st)) @ ''.js''
                   else jsFileNameForSrcAttr);
                fullPath = jsFilePath H cfg htmlFilePath fileName;
                W1 = (if conflict
                      then logReport (ScriptConflict (jsLoggingPath H cfg htmlFilePath fileName)) W
                      else W);
                W2 = writeFile fullPath scriptContent (ensureDir (path_dirname H fullPath) W1)
            in (st\<lparr>originalIndex := originalIndex st + 1, loopIndex := loopIndex st + 1,
                   loopWorld := W2,
                   extractedJsFiles := extractedJsFiles st
                     @ [\<lparr>sourcePath = fullPath, content = scriptContent\<rparr>],
                   jsModifiedInHtml := True\<rparr>,
                Emptied (AList.update ''src'' (jsSrcAttr H cfg htmlFilePath fileName) as))))"

definition scriptCallback ::
  "host \<Rightarrow> config \<Rightarrow> bool \<Rightarrow> string \<Rightarrow> string \<Rightarrow> nat \<Rightarrow> js_loop \<Rightarrow> string \<Rightarrow> (string \<times> string) list \<Rightarrow> dom
   \<Rightarrow> js_loop \<times> action" where
  "scriptCallback H cfg isDryRun htmlFilePath safeJsFileBase n st tg as ch =
     (if tg = ''script'' then
        (if isInlineScript as ch
         then extractScriptTag H cfg isDryRun htmlFilePath safeJsFileBase n st as ch
         else (st\<lparr>originalIndex := originalIndex st + 1\<rparr>, Keep as))
      else (st, Keep as))"

definition extractJsFromHtml ::
  "host \<Rightarrow> world \<Rightarrow> dom \<Rightarrow> string \<Rightarrow> string \<Rightarrow> config \<Rightarrow> bool
   \<Rightarrow> bool \<times> jsFileData list \<times> dom \<times> world" where
  "extractJsFromHtml H W d htmlFilePath htmlFileBaseName cfg isDryRun =
     (let n = length (scriptTagsToProcess d)
      in if n = 0 then (False, [], d, W)
         else
           (let safeJsFileBase = generateSafeBaseName H htmlFileBaseName ''JS'' cfg
            in case each (scriptCallback H cfg isDryRun htmlFilePath safeJsFileBase n)
                      \<lparr>originalIndex = 0, loopIndex = 0, loopWorld = W,
                       extractedJsFiles = [], jsModifiedInHtml = False\<rparr> d of
                 (st, d') \<Rightarrow> (jsModifiedInHtml st, extractedJsFiles st, d', loopWorld st)))"


subsection \<open>Processing one HTML file\<close>

text \<open>
  The copy of the results to the distribution directory. A failure inside is caught and
  logged there.
\<close>

definition distPath :: "host \<Rightarrow> config \<Rightarrow> string \<Rightarrow> string" where
  "distPath H cfg p =
     (let distSourceRootAbsolute = path_resolve H (projectRoot cfg) (distSourceRoot cfg);
          distDirAbsolute = path_resolve H (projectRoot cfg) (distDir cfg)
      in path_join H distDirAbsolute (path_relative H distSourceRootAbsolute p))"

definition distLogPath :: "host \<Rightarrow> config \<Rightarrow> string \<Rightarrow> string" where
  "distLogPath H cfg p =
     backslashesToSlashes (path_relative H (projectRoot cfg) (distPath H cfg p))"

definition copyJsToDist :: "host \<Rightarrow> config \<Rightarrow> bool \<Rightarrow> jsFileData \<Rightarrow> world \<Rightarrow> world" where
  "copyJsToDist H cfg isDryRun jsFile W =
     (let jsDestPath = distPath H cfg (sourcePath jsFile)
      in if isDryRun then logReport (DryRunCopyJs (distLogPath H cfg (sourcePath jsFile))) W
         else (case copyFile (sourcePath jsFile) jsDestPath W of
                 None \<Rightarrow> logReport (CopyFailed (distLogPath H cfg (sourcePath jsFile))) W
               | Some W' \<Rightarrow> W'))"

definition copyToDistStep ::
  "host \<Rightarrow> config \<Rightarrow> bool \<Rightarrow> string \<Rightarrow> string \<Rightarrow> jsFileData list \<Rightarrow> world \<Rightarrow> world" where
  "copyToDistStep H cfg isDryRun htmlFilePath finalHtmlContent jsFiles W =
     (let htmlDestPath = distPath H cfg htmlFilePath;
          W1 = (if isDryRun then logReport (DryRunCopyHtml (distLogPath H cfg htmlFilePath)) W
                else writeFile htmlDestPath finalHtmlContent
                       (ensureDir (path_dirname H htmlDestPath) W))
      in fold (copyJsToDist H cfg isDryRun) jsFiles W1)"

text \<open>
  The block of \<^verbatim>\<open>processHtmlFile\<close> under
  \<^verbatim>\<open>if (cssModified || cssContent)\<close>: the CSS is saved and, when that gives a path,
  linked. The result is \<^verbatim>\<open>newCssLinkAdded\<close>, the document and the world.
\<close>

definition saveAndLinkCss ::
  "host \<Rightarrow> world \<Rightarrow> dom \<Rightarrow> string \<Rightarrow> config \<Rightarrow> bool \<Rightarrow> string \<Rightarrow> bool \<Rightarrow> bool \<times> dom \<times> world" where
  "saveAndLinkCss H W d1 htmlFilePath cfg isDryRun cssContent styleTagsAndAttrsRemoved =
     (if styleTagsAndAttrsRemoved \<or> cssContent \<noteq> [] then
        (let cssFileBase = generateCssFileBaseName H htmlFilePath cfg
         in case saveCssFile H W cssContent cssFileBase htmlFilePath cfg isDryRun of
              (None, W1) \<Rightarrow> (False, d1, W1)
            | (Some savedCssPath, W1) \<Rightarrow>
                (case addCssLinkToHtmlHead H d1 htmlFilePath cssFileBase cfg of
                   (linkStatus, d2) \<Rightarrow>
                     (linkStatus, d2,
                      if linkStatus \<and> isDryRun
                      then logReport (DryRunLinkAdded cssFileBase) W1 else W1)))
      else (False, d1, W))"

text \<open>
  The first part of the \<^verbatim>\<open>try\<close> block of \<^verbatim>\<open>processHtmlFile\<close>, from the parsed
  content to \<^verbatim>\<open>effectiveChangeMade\<close>: style extraction, saving the CSS and linking it,
  script extraction. The result is \<^verbatim>\<open>effectiveChangeMade\<close>,
  \<^verbatim>\<open>extractedJsFiles\<close>, the document and the world.
\<close>

definition refactorDocument ::
  "host \<Rightarrow> world \<Rightarrow> string \<Rightarrow> config \<Rightarrow> bool \<Rightarrow> string \<Rightarrow> bool \<times> jsFileData list \<times> dom \<times> world" where
  "refactorDocument H W htmlFilePath cfg isDryRun initialHtmlContent =
     (let htmlFileRawBaseName = path_basename H htmlFilePath ''.html''
      in case extractCssFromHtml H (cheerio_load H initialHtmlContent) htmlFilePath
                htmlFileRawBaseName of
           (cssContent, styleTagsAndAttrsRemoved, d1) \<Rightarrow>
         case saveAndLinkCss H W d1 htmlFilePath cfg isDryRun cssContent
                styleTagsAndAttrsRemoved of
           (newCssLinkAdded, d2, W1) \<Rightarrow>
         case extractJsFromHtml H W1 d2 htmlFilePath
                (sanitizeStringForFilename htmlFileRawBaseName) cfg isDryRun of
           (jsModified, jsFiles, d3, W2) \<Rightarrow>
             (styleTagsAndAttrsRemoved \<or> jsModified \<or> newCssLinkAdded, jsFiles, d3, W2))"

text \<open>
  The \<^verbatim>\<open>try\<close> block of \<^verbatim>\<open>processHtmlFile\<close>. \<open>Inl\<close> is a thrown error, with the
  world at that moment; \<open>Inr\<close> is the returned flag.
\<close>

definition processHtmlFileTry ::
  "host \<Rightarrow> world \<Rightarrow> string \<Rightarrow> config \<Rightarrow> bool \<Rightarrow> (string \<times> world) + (bool \<times> world)" where
  "processHtmlFileTry H W htmlFilePath cfg isDryRun =
     (case files W htmlFilePath of
        None \<Rightarrow> Inl (''ENOENT'', W)
      | Some initialHtmlContent \<Rightarrow>
         (case refactorDocument H W htmlFilePath cfg isDryRun initialHtmlContent of
            (effectiveChangeMade, jsFiles, d3, W2) \<Rightarrow>
              if effectiveChangeMade then
                (let finalHtmlContent = html d3;
                     written =
                       (if isDryRun
                        then Inr (True, logReport (DryRunHtmlModified htmlFilePath) W2)
                        else if finalHtmlContent = initialHtmlContent then Inr (False, W2)
                        else if createBackups cfg then
                          (case copyFile htmlFilePath (htmlFilePath @ ''.bak'') W2 of
                             None \<Rightarrow> Inl (''ENOENT'', W2)
                           | Some W3 \<Rightarrow> Inr (True, writeFile htmlFilePath finalHtmlContent W3))
                        else Inr (True, writeFile htmlFilePath finalHtmlContent W2))
                 in case written of
                      Inl err \<Rightarrow> Inl err
                    | Inr (fileWasModified, W4) \<Rightarrow>
                        Inr (fileWasModified,
                             if copyToDist cfg
                             then copyToDistStep H cfg isDryRun htmlFilePath finalHtmlContent
                                    jsFiles W4
                             else W4))
              else Inr (False, W2)))"

text \<open>
  \<^verbatim>\<open>processHtmlFile\<close>: the \<^verbatim>\<open>catch\<close> logs the error and returns \<^verbatim>\<open>false\<close>.
\<close>

definition processHtmlFile :: "host \<Rightarrow> world \<Rightarrow> string \<Rightarrow> config \<Rightarrow> bool \<Rightarrow> bool \<times> world" where
  "processHtmlFile H W htmlFilePath cfg isDryRun =
     (case processHtmlFileTry H W htmlFilePath cfg isDryRun of
        Inl (message, W') \<Rightarrow> (False, logReport (ProcessingError htmlFilePath) W')
      | Inr result \<Rightarrow> result)"

subsection \<open>The batch driver\<close>

text \<open>
  \<^verbatim>\<open>runRefactorProcess\<close> after file discovery: \<open>filesToProcess\<close> is the list the
  globbing has produced. The result is \<^verbatim>\<open>processedFileCount\<close>,
  \<^verbatim>\<open>changedFileCount\<close> and the world.
\<close>

definition ensureOutputDirs :: "host \<Rightarrow> config \<Rightarrow> bool \<Rightarrow> world \<Rightarrow> world" where
  "ensureOutputDirs H cfg isDryRun W =
     (let W1 = (if cssOutputDirStrategy cfg = ''centralized'' \<and> \<not> isDryRun
                then ensureDir (path_resolve H (projectRoot cfg) (stylesOutputDir cfg)) W else W);
          W2 = (if copyToDist cfg \<and> \<not> isDryRun
                then ensureDir (path_resolve H (projectRoot cfg) (distDir cfg)) W1 else W1)
      in if jsOutputDirStrategy cfg = ''centralized'' \<and> \<not> isDryRun
         then ensureDir (path_resolve H (projectRoot cfg) (jsCentralOutputDir cfg)) W2 else W2)"

fun processFiles :: "host \<Rightarrow> config \<Rightarrow> bool \<Rightarrow> string list \<Rightarrow> nat \<times> nat \<times> world \<Rightarrow> nat \<times> nat \<times> world" where
  "processFiles H cfg isDryRun [] acc = acc"
| "processFiles H cfg isDryRun (htmlFilePath # rest) (processedFileCount, changedFileCount, W) =
     (case processHtmlFile H W htmlFilePath cfg isDryRun of
        (changed, W') \<Rightarrow>
          processFiles H cfg isDryRun rest
            (processedFileCount + 1, (if changed then changedFileCount + 1 else changedFileCount), W'))"

definition runRefactorProcess :: "host \<Rightarrow> world \<Rightarrow> config \<Rightarrow> bool \<Rightarrow> string list \<Rightarrow> nat \<times> nat \<times> world" where
  "runRefactorProcess H W cfg isDryRun filesToProcess =
     processFiles H cfg isDryRun filesToProcess (0, 0, ensureOutputDirs H cfg isDryRun W)"


subsection \<open>Notions used to state the properties\<close>

text \<open>
  What the extraction of a style attribute should do to an element, as a function of the
  element alone: a non-blank \<^verbatim>\<open>style\<close> attribute is replaced by the class
  \<^verbatim>\<open>css-\<close> followed by the first 8 hex characters of the SHA-256 digest of the
  normalised declarations. \<open>mapAttrs\<close> applies a function to the attributes of every
  element of a forest.
\<close>

definition restyledAttrs :: "host \<Rightarrow> (string \<times> string) list \<Rightarrow> (string \<times> string) list" where
  "restyledAttrs H as =
     (case map_of as ''style'' of
        None \<Rightarrow> as
      | Some rawStyle \<Rightarrow>
          if blank rawStyle then as
          else removeAttr ''style''
                 (addClass (''css-'' @ take 8 (sha256hex H (normalizeStyleString rawStyle))) as))"

fun mapAttrs :: "((string \<times> string) list \<Rightarrow> (string \<times> string) list) \<Rightarrow> dom \<Rightarrow> dom" where
  "mapAttrs g [] = []"
| "mapAttrs g (Text t # ns) = Text t # mapAttrs g ns"
| "mapAttrs g (Element tg as ch # ns) = Element tg (g as) (mapAttrs g ch) # mapAttrs g ns"

text \<open>The document after the \<^verbatim>\<open>style\<close> elements are extracted, before the attributes are.\<close>

definition withoutStyleTags :: "dom \<Rightarrow> dom" where
  "withoutStyleTags d = snd (each styleTagCallback (0, [], False) d)"

text \<open>The normalised styles of the rules in a list of chunks, and the rules for one style.\<close>

fun ruleKeys :: "css_chunk list \<Rightarrow> string list" where
  "ruleKeys [] = []"
| "ruleKeys (StyleTagChunk index styleContent # cs) = ruleKeys cs"
| "ruleKeys (RuleChunk className normalizedStyle # cs) = normalizedStyle # ruleKeys cs"

fun isRuleFor :: "string \<Rightarrow> css_chunk \<Rightarrow> bool" where
  "isRuleFor n (StyleTagChunk index styleContent) = False"
| "isRuleFor n (RuleChunk className normalizedStyle) = (normalizedStyle = n)"

text \<open>A \<^verbatim>\<open>styleMap\<close> and a chunk list that hold generated class names only.\<close>

definition generatedNames :: "host \<Rightarrow> (string \<rightharpoonup> string) \<Rightarrow> bool" where
  "generatedNames H styleMap =
     (\<forall>n className. styleMap n = Some className \<longrightarrow> className = generateClassFromStyle H n)"

fun generatedRules :: "host \<Rightarrow> css_chunk list \<Rightarrow> bool" where
  "generatedRules H [] = True"
| "generatedRules H (StyleTagChunk index styleContent # cs) = generatedRules H cs"
| "generatedRules H (RuleChunk className normalizedStyle # cs) =
     (className = generateClassFromStyle H normalizedStyle \<and> generatedRules H cs)"

text \<open>
  The file name a real run gives the script it is about to extract: the planned name
  when no file is at its path, the name with \<^verbatim>\<open>-conflict-\<close> and the time stamp when
  one is, whatever that file holds.
\<close>

definition plannedScriptName :: "string \<Rightarrow> nat \<Rightarrow> js_loop \<Rightarrow> string" where
  "plannedScriptName safeJsFileBase n st =
     safeJsFileBase @ scriptSuffix n (originalIndex st) @ ''.js''"

definition conflictScriptName :: "host \<Rightarrow> string \<Rightarrow> nat \<Rightarrow> js_loop \<Rightarrow> string" where
  "conflictScriptName H safeJsFileBase n st =
     safeJsFileBase @ scriptSuffix n (originalIndex st) @ ''-conflict-''
     @ dec (date_now H (loopIndex st)) @ ''.js''"

definition chosenScriptName :: "host \<Rightarrow> config \<Rightarrow> string \<Rightarrow> string \<Rightarrow> nat \<Rightarrow> js_loop \<Rightarrow> string" where
  "chosenScriptName H cfg htmlFilePath safeJsFileBase n st =
     (case files (loopWorld st)
             (jsFilePath H cfg htmlFilePath (plannedScriptName safeJsFileBase n st)) of
        None \<Rightarrow> plannedScriptName safeJsFileBase n st
      | Some existing \<Rightarrow> conflictScriptName H safeJsFileBase n st)"

text \<open>
  The \<^verbatim>\<open>script\<close> elements of a forest in document order, and those to process with
  their indices among all \<^verbatim>\<open>script\<close> elements, counted from \<open>k\<close>.
\<close>

definition scriptsOf :: "dom \<Rightarrow> ((string \<times> string) list \<times> dom) list" where
  "scriptsOf d = map snd (filter (\<lambda>e. fst e = ''script'') (elems d))"

definition toProcessFrom :: "nat \<Rightarrow> dom \<Rightarrow> (nat \<times> (string \<times> string) list \<times> dom) list" where
  "toProcessFrom k d =
     filter (\<lambda>(index, as, ch). isInlineScript as ch) (enumerate k (scriptsOf d))"

text \<open>
  What the naming of extracted scripts should be, for the file recorded for the script
  at a position among the scripts to process and with an index among all \<^verbatim>\<open>script\<close>
  elements: the file holds the trimmed content; its name is the base name, then
  \<^verbatim>\<open>_s\<close> and the index plus one when there are at least two scripts to process, then
  \<^verbatim>\<open>.js\<close>, or in a real run the same with \<^verbatim>\<open>-conflict-\<close> and a time stamp before
  \<^verbatim>\<open>.js\<close>.
\<close>

definition namedByOriginalIndex ::
  "host \<Rightarrow> config \<Rightarrow> string \<Rightarrow> string \<Rightarrow> nat \<Rightarrow> bool \<Rightarrow> jsFileData
   \<Rightarrow> nat \<times> nat \<times> (string \<times> string) list \<times> dom \<Rightarrow> bool" where
  "namedByOriginalIndex H cfg htmlFilePath safeJsFileBase n isDryRun file item =
     (case item of
        (position, index, as, ch) \<Rightarrow>
          content file = trim (html ch)
          \<and> (sourcePath file
                = jsFilePath H cfg htmlFilePath
                    (safeJsFileBase @ (if 2 \<le> n then ''_s'' @ dec (index + 1) else []) @ ''.js'')
              \<or> (isDryRun = False
                  \<and> sourcePath file
                      = jsFilePath H cfg htmlFilePath
                          (safeJsFileBase @ (if 2 \<le> n then ''_s'' @ dec (index + 1) else [])
                           @ ''-conflict-'' @ dec (date_now H position) @ ''.js''))))"

text \<open>
  The inline scripts in a list of \<^verbatim>\<open>script\<close> elements, with their indices counted
  from \<open>k\<close>, and what the loop of \<^verbatim>\<open>extractJsFromHtml\<close> does to its state while it
  passes such a list: the two indices advance, the flag is set when a script is
  extracted, and the files recorded are named as above.
\<close>

definition inlineFrom ::
  "nat \<Rightarrow> ((string \<times> string) list \<times> dom) list \<Rightarrow> (nat \<times> (string \<times> string) list \<times> dom) list" where
  "inlineFrom k scripts = filter (\<lambda>(index, as, ch). isInlineScript as ch) (enumerate k scripts)"

definition scriptLoopStep ::
  "host \<Rightarrow> config \<Rightarrow> string \<Rightarrow> string \<Rightarrow> nat \<Rightarrow> bool \<Rightarrow> js_loop
   \<Rightarrow> ((string \<times> string) list \<times> dom) list \<Rightarrow> js_loop \<Rightarrow> bool" where
  "scriptLoopStep H cfg p safe n dry st scripts st' =
     (originalIndex st' = originalIndex st + length scripts
      \<and> loopIndex st' = loopIndex st + length (inlineFrom (originalIndex st) scripts)
      \<and> jsModifiedInHtml st' = (jsModifiedInHtml st \<or> inlineFrom (originalIndex st) scripts \<noteq> [])
      \<and> (\<exists>new. extractedJsFiles st' = extractedJsFiles st @ new
            \<and> list_all2 (namedByOriginalIndex H cfg p safe n dry) new
                 (enumerate (loopIndex st) (inlineFrom (originalIndex st) scripts))))"

text \<open>
  What extraction still has to do in a document: a \<^verbatim>\<open>style\<close> element with content, a
  \<^verbatim>\<open>style\<close> attribute with a value, an inline script.
\<close>

definition pendingStyleTag :: "string \<times> (string \<times> string) list \<times> dom \<Rightarrow> bool" where
  "pendingStyleTag e = (case e of (tg, as, ch) \<Rightarrow> tg = ''style'' \<and> \<not> blank (html ch))"

definition pendingStyleAttr :: "string \<times> (string \<times> string) list \<times> dom \<Rightarrow> bool" where
  "pendingStyleAttr e =
     (case e of (tg, as, ch) \<Rightarrow>
        (case map_of as ''style'' of None \<Rightarrow> False | Some rawStyle \<Rightarrow> \<not> blank rawStyle))"

definition pendingScript :: "string \<times> (string \<times> string) list \<times> dom \<Rightarrow> bool" where
  "pendingScript e = (case e of (tg, as, ch) \<Rightarrow> tg = ''script'' \<and> isInlineScript as ch)"

definition quiescent :: "dom \<Rightarrow> bool" where
  "quiescent d =
     (\<not> list_ex pendingStyleTag (elems d) \<and> \<not> list_ex pendingStyleAttr (elems d)
      \<and> \<not> list_ex pendingScript (elems d))"

text \<open>
  A parser never returns two text nodes side by side: the text between two tags is one
  node. \<open>mergeText\<close> joins the adjacent text nodes of a forest, as parsing the
  serialised forest does.
\<close>

fun mergeText :: "dom \<Rightarrow> dom" where
  "mergeText [] = []"
| "mergeText (Text a # Text b # ns) = mergeText (Text (a @ b) # ns)"
| "mergeText (Text a # ns) = Text a # mergeText ns"
| "mergeText (Element tg as ch # ns) = Element tg as (mergeText ch) # mergeText ns"



text \<open>
  The invariant of the attribute pass: the names are generated ones, and the rules in the
  chunk list are those of the styles in \<^verbatim>\<open>styleMap\<close>, each once.
\<close>

definition styleInv :: "host \<Rightarrow> (string \<rightharpoonup> string) \<times> css_chunk list \<times> bool \<Rightarrow> bool" where
  "styleInv H s =
     (generatedNames H (fst s) \<and> generatedRules H (fst (snd s))
      \<and> distinct (ruleKeys (fst (snd s))) \<and> set (ruleKeys (fst (snd s))) = dom (fst s))"

subsection \<open>A sample host and sample inputs\<close>

text \<open>
  A host for the examples: the SHA-256 digests of the strings the examples hash, the
  functions of \<^verbatim>\<open>path\<close> on normalised absolute POSIX paths (the relative path is
  taken only from a directory to a file below it), a clock, and a parser that knows the
  sample pages.
\<close>

definition sampleDigests :: "(string \<times> string) list" where
  "sampleDigests =
     [(''aaaaaaaaaaaa'', ''f24abc34b13fade76e805799f71187da6cd90b9cac373ae65ed57f143bd664e5''),
      (''products_summer_collection_2024'',
       ''d9d722ba852db5cb54efd03927fb11917485906fcee7301da60b94f2a35430fc''),
      (''color:red'', ''f1ff77e5ddbb1af52eb51c98f725927143221549385937595112128987cf39e4''),
      (''color: red'', ''35eac301459fc03df561d647bde32bab418b8ec345330c4ba5997474f51e09cc''),
      (''color:red;font-weight:bold'',
       ''63b5fc21c50b1b38378efb0ea6fe00f2b4ee757630816a249ccfc5c1d67ac124''),
      (''color:red;color:red'',
       ''40b0123967d0b80c57e9f7d0516fcb8a17206336592a61d6c3568ba41060b048'')]"

definition sampleSha256hex :: "string \<Rightarrow> string" where
  "sampleSha256hex s =
     (case map_of sampleDigests s of
        Some digest \<Rightarrow> digest
      | None \<Rightarrow> ''e3b0c44298fc1c149afbf4c8996fb92427ae41e4649b934ca495991b7852b855'')"

definition sampleDirname :: "string \<Rightarrow> string" where
  "sampleDirname p =
     (if CHR ''/'' \<in> set p then
        (let d = rev (drop 1 (dropWhile (\<lambda>c. c \<noteq> CHR ''/'') (rev p)))
         in if d = [] then ''/'' else d)
      else ''.'')"

definition sampleBasename :: "string \<Rightarrow> string \<Rightarrow> string" where
  "sampleBasename p ext =
     (let b = rev (takeWhile (\<lambda>c. c \<noteq> CHR ''/'') (rev p))
      in if endsWith b ext \<and> b \<noteq> ext then take (length b - length ext) b else b)"

definition sampleResolve :: "string \<Rightarrow> string \<Rightarrow> string" where
  "sampleResolve root p = (if startsWith p ''/'' then p else root @ ''/'' @ stripSlashes p)"

definition sampleRelative :: "string \<Rightarrow> string \<Rightarrow> string" where
  "sampleRelative fromDir p =
     (if startsWith p (fromDir @ ''/'') then drop (length fromDir + 1) p else p)"

definition pageDom :: dom where
  "pageDom =
     [Element ''html'' []
        [Element ''head'' [] [Element ''style'' [] [Text ''.a{color:red}'']],
         Element ''body'' []
           [Element ''div'' [(''style'', ''color:red'')] [Text ''hi''],
            Element ''script'' [] [Text ''console.log(1)'']]]]"

definition pageDomRefactored :: dom where
  "pageDomRefactored =
     [Element ''html'' []
        [Element ''head'' []
           [Text (nl @ ''    ''),
            Element ''link'' [(''rel'', ''stylesheet''), (''href'', ''assets/css/index.css'')] [],
            Text (nl @ ''  '')],
         Element ''body'' []
           [Element ''div'' [(''class'', ''css-f1ff77e5'')] [Text ''hi''],
            Element ''script'' [(''src'', ''index.js'')] []]]]"


text \<open>
  Two elements whose styles differ in order and in the white space around the
  declarations, a no-break space and a space; two whose styles differ in the white space
  inside a declaration; two whose styles differ in a repeated declaration.
\<close>

definition reorderedStylesDom :: dom where
  "reorderedStylesDom =
     [Element ''div'' [(''style'', ''color:red;font-weight:bold'')] [Text ''a''],
      Element ''p'' [(''style'', ''font-weight:bold;'' @ [CHR 0xA0] @ '' color:red'')] [Text ''b'']]"

definition innerSpaceStylesDom :: dom where
  "innerSpaceStylesDom =
     [Element ''div'' [(''style'', ''color: red'')] [Text ''a''],
      Element ''p'' [(''style'', ''color:red'')] [Text ''b'']]"

definition repeatedStylesDom :: dom where
  "repeatedStylesDom =
     [Element ''div'' [(''style'', ''color:red;color:red'')] [Text ''a''],
      Element ''p'' [(''style'', ''color:red'')] [Text ''b'']]"

text \<open>A world in which the CSS file of the sample page exists with the given content.\<close>

definition cssWorld :: "string \<Rightarrow> world" where
  "cssWorld existing =
     \<lparr>files = [''/site/styles/extracted/index.css'' \<mapsto> existing], effects = [], reports = []\<rparr>"

text \<open>
  A page with a stylesheet link in the body, and one whose link in the head is written
  with backslashes.
\<close>

definition bodyLinkDom :: dom where
  "bodyLinkDom =
     [Element ''html'' []
        [Element ''head'' [] [],
         Element ''body'' []
           [Element ''link'' [(''rel'', ''stylesheet''), (''href'', ''assets/css/index.css'')] []]]]"

definition backslashLinkDom :: dom where
  "backslashLinkDom =
     [Element ''html'' []
        [Element ''head'' []
           [Element ''link'' [(''rel'', ''stylesheet''),
              (''href'', ''assets'' @ [CHR 0x5C] @ ''css'' @ [CHR 0x5C] @ ''index.css'')] []],
         Element ''body'' [] []]]"

text \<open>
  A page with one inline script, and a world in which the file the script is extracted to
  exists already, with the very content of the script.
\<close>

definition scriptDom :: dom where
  "scriptDom =
     [Element ''html'' []
        [Element ''head'' [] [],
         Element ''body'' [] [Element ''script'' [] [Text ''console.log(1)'']]]]"

definition scriptDomRefactored :: dom where
  "scriptDomRefactored =
     [Element ''html'' []
        [Element ''head'' [] [],
         Element ''body'' [] [Element ''script'' [(''src'', ''index.js'')] []]]]"

text \<open>
  A page as it is written by hand, with line breaks and indentation between the tags, a
  \<^verbatim>\<open>style\<close> element, a \<^verbatim>\<open>style\<close> attribute and an inline script; and the
  document a real run makes of it. Where the \<^verbatim>\<open>style\<close> element stood and where the
  link is appended, that document has text nodes side by side.
\<close>

definition writtenPageDom :: dom where
  "writtenPageDom =
     [Element ''html'' []
        [Element ''head'' []
           [Text (nl @ ''  ''), Element ''style'' [] [Text ''.a{color:red}''], Text nl],
         Text nl,
         Element ''body'' []
           [Text (nl @ ''  ''),
            Element ''div'' [(''style'', ''color:red'')] [Text ''hi''],
            Text (nl @ ''  ''),
            Element ''script'' [] [Text ''console.log(1)''],
            Text nl]]]"

definition writtenPageRefactored :: dom where
  "writtenPageRefactored =
     [Element ''html'' []
        [Element ''head'' []
           [Text (nl @ ''  ''), Text nl, Text (nl @ ''    ''),
            Element ''link'' [(''rel'', ''stylesheet''), (''href'', ''assets/css/index.css'')] [],
            Text (nl @ ''  '')],
         Text nl,
         Element ''body'' []
           [Text (nl @ ''  ''),
            Element ''div'' [(''class'', ''css-f1ff77e5'')] [Text ''hi''],
            Text (nl @ ''  ''),
            Element ''script'' [(''src'', ''index.js'')] [],
            Text nl]]]"

text \<open>
  The parser of the sample host knows the sample pages. What it returns for the
  serialised result of a run is that result with its adjacent text nodes joined.
\<close>

definition sampleLoad :: "string \<Rightarrow> dom" where
  "sampleLoad s =
     (if s = html pageDom then pageDom
      else if s = html pageDomRefactored then pageDomRefactored
      else if s = html scriptDom then scriptDom
      else if s = html scriptDomRefactored then scriptDomRefactored
      else if s = html writtenPageDom then writtenPageDom
      else if s = html writtenPageRefactored then mergeText writtenPageRefactored
      else [Element ''html'' [] [Element ''head'' [] [], Element ''body'' [] [Text s]]])"

text \<open>
  A page with three inline scripts and an external one in second place among the
  \<^verbatim>\<open>script\<close> elements.
\<close>

definition interleavedScriptsDom :: dom where
  "interleavedScriptsDom =
     [Element ''html'' []
        [Element ''head'' [] [Element ''script'' [] [Text ''var a = 1;'']],
         Element ''body'' []
           [Element ''script'' [(''src'', ''vendor.js'')] [],
            Element ''script'' [] [Text ''var b = 2;''],
            Element ''script'' [] [Text ''var c = 3;'']]]]"

text \<open>
  Worlds that hold the page with the script only: at the project root, and below the
  source directory that is mirrored to the distribution directory; and a world that
  holds the page written by hand below the source directory.
\<close>

definition scriptOnlyWorld :: world where
  "scriptOnlyWorld = \<lparr>files = [''/site/index.html'' \<mapsto> html scriptDom], effects = [], reports = []\<rparr>"

definition distWorld :: world where
  "distWorld = \<lparr>files = [''/site/src/index.html'' \<mapsto> html scriptDom], effects = [], reports = []\<rparr>"

definition writtenPageWorld :: world where
  "writtenPageWorld =
     \<lparr>files = [''/site/src/index.html'' \<mapsto> html writtenPageDom], effects = [], reports = []\<rparr>"

definition scriptWorld :: world where
  "scriptWorld =
     \<lparr>files = [''/site/index.html'' \<mapsto> html scriptDom, ''/site/index.js'' \<mapsto> ''console.log(1)''],
      effects = [], reports = []\<rparr>"

definition sampleHost :: host where
  "sampleHost =
     \<lparr>sha256hex = sampleSha256hex, cheerio_load = sampleLoad, path_dirname = sampleDirname,
      path_basename = sampleBasename, path_join = (\<lambda>a b. a @ ''/'' @ b),
      path_resolve = sampleResolve, path_relative = sampleRelative,
      date_now = (\<lambda>i. 1700000000000 + i)\<rparr>"

definition sampleConfig :: config where
  "sampleConfig =
     \<lparr>projectRoot = ''/site'', cssOutputDirStrategy = ''centralized'',
      stylesOutputDir = ''styles/extracted'', jsOutputDirStrategy = ''relativeToHtml'',
      jsCentralOutputDir = ''js/extracted'', compiledCssLinkDir = ''assets/css'',
      htmlPrefixesToOmitFromCssName = [''src/public/'', ''public/'', ''src/pages/'', ''src/''],
      maxFilenameLength = 100, createBackups = True, copyToDist = False,
      distDir = ''dist/'', distSourceRoot = ''src/''\<rparr>"

definition sampleWorld :: world where
  "sampleWorld = \<lparr>files = [''/site/index.html'' \<mapsto> html pageDom], effects = [], reports = []\<rparr>"



section \<open>Properties\<close>

lemmas string_defs = isSpace_def trim_def startsWith_def endsWith_def replaceChar_def
  backslashesToSlashes_def stripSlashes_def blank_def truthy_def

lemmas util_defs = declarations_def normalizeStyleString_def generateClassFromStyle_def
  isSafeChar_def sanitizeStringForFilename_def maxLengthOf_def generateSafeBaseName_def
  generateCssFileBaseName_def

lemmas dom_defs = html_def voidElements_def addClass_def removeAttr_def countHeads_def
  hrefMatches_def upperCaseLetters_def lowerCaseLetters_def toLowerCase_def relIsStylesheet_def
  linkFragment_def headFragment_def cssLinkHref_def addCssLinkToHtmlHead_def isInlineScript_def
  scriptTagsToProcess_def

lemmas world_defs = ensureDir_def writeFile_def copyFile_def logReport_def

lemmas css_defs = styleTagCallback_def styleAttrCallback_def extractCssChunks_def
  extractCssFromHtml_def cssSeparator_def cssFilePath_def saveCssFile_def

lemmas js_defs = jsFilePath_def jsLoggingPath_def jsSrcAttr_def scriptSuffix_def extractScriptTag_def
  scriptCallback_def extractJsFromHtml_def

lemmas process_defs = saveAndLinkCss_def distPath_def distLogPath_def copyJsToDist_def copyToDistStep_def
  refactorDocument_def processHtmlFileTry_def processHtmlFile_def ensureOutputDirs_def
  runRefactorProcess_def

lemmas sample_defs = sampleDigests_def sampleSha256hex_def sampleDirname_def sampleBasename_def
  sampleResolve_def sampleRelative_def pageDom_def pageDomRefactored_def sampleLoad_def
  sampleHost_def sampleConfig_def sampleWorld_def reorderedStylesDom_def innerSpaceStylesDom_def
  repeatedStylesDom_def cssWorld_def bodyLinkDom_def backslashLinkDom_def scriptDom_def
  scriptWorld_def scriptDomRefactored_def scriptOnlyWorld_def distWorld_def writtenPageDom_def
  writtenPageRefactored_def writtenPageWorld_def

lemmas all_defs = string_defs util_defs dom_defs world_defs css_defs js_defs process_defs
  sample_defs

subsection \<open>White space, and documents without elements\<close>

lemma trim_nil_iff: "trim s = [] \<longleftrightarrow> (\<forall>c \<in> set s. isSpace c)"
proof
  assume "trim s = []"
  then have a: "\<forall>c \<in> set (dropWhile isSpace s). isSpace c"
    by (simp add: trim_def)
  have "dropWhile isSpace s = []"
  proof (rule ccontr)
    assume ne: "dropWhile isSpace s \<noteq> []"
    then have "\<not> isSpace (hd (dropWhile isSpace s))" by (rule hd_dropWhile)
    moreover have "hd (dropWhile isSpace s) \<in> set (dropWhile isSpace s)"
      using ne by (rule hd_in_set)
    ultimately show False using a by blast
  qed
  then show "\<forall>c \<in> set s. isSpace c" by simp
next
  assume "\<forall>c \<in> set s. isSpace c"
  then show "trim s = []" by (auto simp: trim_def dest: set_dropWhileD)
qed

lemma blank_iff: "blank s \<longleftrightarrow> (\<forall>c \<in> set s. isSpace c)"
  by (simp add: blank_def trim_nil_iff)

lemma blank_append: "blank (a @ b) \<longleftrightarrow> blank a \<and> blank b"
  by (auto simp: blank_iff)

lemma blank_Nil: "blank []"
  by (simp add: blank_iff)

lemma html_Nil: "html [] = []"
  by (simp add: html_def)

lemma html_Cons: "html (n # d) = renderNode n @ html d"
  by (simp add: html_def)

lemma not_blank_element: "\<not> blank (renderNode (Element tg as ch))"
  by (simp add: blank_iff isSpace_def)

lemma blank_html_no_elems: "blank (html d) \<Longrightarrow> elems d = []"
proof (induction d)
  case Nil
  then show ?case by simp
next
  case (Cons n d)
  show ?case
  proof (cases n)
    case (Text t)
    with Cons show ?thesis by (simp add: html_Cons blank_append)
  next
    case (Element tg as ch)
    have "\<not> blank (html (n # d))"
      unfolding Element html_Cons blank_append using not_blank_element by blast
    with Cons.prems show ?thesis by simp
  qed
qed

lemma each_no_elems: "elems d = [] \<Longrightarrow> each f s d = (s, d)"
  by (induction f s d rule: each.induct) auto

lemma each_blank_html: "blank (html d) \<Longrightarrow> each f s d = (s, d)"
  by (simp add: blank_html_no_elems each_no_elems)

lemma each_invariant:
  assumes step: "\<And>s tg as ch. I s \<Longrightarrow> I (fst (f s tg as ch))"
  shows "I s \<Longrightarrow> I (fst (each f s d))"
  using step
proof (induction f s d rule: each.induct)
  case (1 f s)
  then show ?case by simp
next
  case (2 f s t ns)
  then show ?case by (cases "each f s ns") simp
next
  case (3 f s tg as ch ns)
  obtain s1 act where f: "f s tg as ch = (s1, act)" by (cases "f s tg as ch")
  obtain s2 ch' where c: "each f s1 ch = (s2, ch')" by (cases "each f s1 ch")
  obtain s3 ns' where n: "each f s2 ns = (s3, ns')" by (cases "each f s2 ns")
  have "I s1" using "3.prems"(1) "3.prems"(2)[of s tg as ch] f by simp
  then have "I s2" using "3.IH"(1)[OF f[symmetric]] "3.prems"(2) c by simp
  then have "I s3" using "3.IH"(2)[OF f[symmetric] c[symmetric]] "3.prems"(2) n by simp
  then show ?case using f c n by simp
qed

lemma elems_mapAttrs:
  "elems (mapAttrs g d) = map (\<lambda>e. (fst e, g (fst (snd e)), mapAttrs g (snd (snd e)))) (elems d)"
  by (induction g d rule: mapAttrs.induct) simp_all

subsection \<open>The attribute pass, element by element\<close>

lemma generateClassFromStyle_eq:
  "generateClassFromStyle H n = ''css-'' @ take 8 (sha256hex H n)"
  by (simp add: generateClassFromStyle_def)

lemma generatedNames_empty: "generatedNames H Map.empty"
  by (simp add: generatedNames_def)

lemma styleAttrCallback_action:
  assumes "generatedNames H m"
  shows "snd (styleAttrCallback H (m, cs, b) tg as ch) = Keep (restyledAttrs H as)
       \<and> generatedNames H (fst (fst (styleAttrCallback H (m, cs, b) tg as ch)))"
  using assms
  by (auto simp: styleAttrCallback_def restyledAttrs_def generatedNames_def
      generateClassFromStyle_eq Let_def split: option.splits)

lemma styleAttr_each:
  "generatedNames H (fst s) \<Longrightarrow>
   snd (each (styleAttrCallback H) s d) = mapAttrs (restyledAttrs H) d
   \<and> generatedNames H (fst (fst (each (styleAttrCallback H) s d)))"
proof (induction "styleAttrCallback H" s d rule: each.induct)
  case (1 s)
  then show ?case by simp
next
  case (2 s t ns)
  then show ?case by (cases "each (styleAttrCallback H) s ns") simp
next
  case (3 s tg as ch ns)
  obtain m cs b where s: "s = (m, cs, b)" by (cases s)
  obtain s1 act where f: "styleAttrCallback H s tg as ch = (s1, act)"
    by (cases "styleAttrCallback H s tg as ch")
  obtain s2 ch' where c: "each (styleAttrCallback H) s1 ch = (s2, ch')"
    by (cases "each (styleAttrCallback H) s1 ch")
  obtain s3 ns' where n: "each (styleAttrCallback H) s2 ns = (s3, ns')"
    by (cases "each (styleAttrCallback H) s2 ns")
  have act: "act = Keep (restyledAttrs H as)" and g1: "generatedNames H (fst s1)"
    using styleAttrCallback_action[of H m cs b tg as ch] "3.prems" f s by simp_all
  have ch: "ch' = mapAttrs (restyledAttrs H) ch" and g2: "generatedNames H (fst s2)"
    using "3.hyps"(1)[OF f[symmetric] g1] c by simp_all
  have ns: "ns' = mapAttrs (restyledAttrs H) ns" and g3: "generatedNames H (fst s3)"
    using "3.hyps"(2)[OF f[symmetric] c[symmetric] g2] n by simp_all
  show ?case using f c n act ch ns g3 by simp
qed

lemma ruleKeys_append: "ruleKeys (xs @ ys) = ruleKeys xs @ ruleKeys ys"
  by (induction xs rule: ruleKeys.induct) simp_all

lemma generatedRules_append:
  "generatedRules H (xs @ ys) \<longleftrightarrow> generatedRules H xs \<and> generatedRules H ys"
  by (induction H xs rule: generatedRules.induct) simp_all

lemma filter_isRuleFor_none: "n \<notin> set (ruleKeys cs) \<Longrightarrow> filter (isRuleFor n) cs = []"
  by (induction cs rule: ruleKeys.induct) auto

lemma filter_isRuleFor_one:
  "distinct (ruleKeys cs) \<Longrightarrow> n \<in> set (ruleKeys cs) \<Longrightarrow> generatedRules H cs \<Longrightarrow>
   filter (isRuleFor n) cs = [RuleChunk (generateClassFromStyle H n) n]"
  by (induction cs rule: ruleKeys.induct) (auto simp: filter_isRuleFor_none)

text \<open>The \<^verbatim>\<open>style\<close> elements add no rule.\<close>

lemma styleTagCallback_ruleKeys:
  "ruleKeys (fst (snd (fst (styleTagCallback s tg as ch)))) = ruleKeys (fst (snd s))"
  by (cases s) (simp add: styleTagCallback_def Let_def ruleKeys_append)

lemma styleTag_each_ruleKeys:
  "ruleKeys (fst (snd (fst (each styleTagCallback (0, [], False) d)))) = []"
proof -
  have "ruleKeys (fst (snd (fst (each styleTagCallback (0, [], False) d)))) = []"
    by (rule each_invariant[where I = "\<lambda>s. ruleKeys (fst (snd s)) = []"])
       (simp_all add: styleTagCallback_ruleKeys)
  then show ?thesis .
qed

lemma styleAttrCallback_inv:
  "styleInv H s \<Longrightarrow> styleInv H (fst (styleAttrCallback H s tg as ch))"
  by (cases s)
     (auto simp: styleInv_def styleAttrCallback_def generatedNames_def Let_def ruleKeys_append
        generatedRules_append split: option.splits)

lemma styleAttr_each_inv:
  "styleInv H s \<Longrightarrow> styleInv H (fst (each (styleAttrCallback H) s d))"
  by (rule each_invariant[where I = "styleInv H"]) (simp_all add: styleAttrCallback_inv)

lemma styleAttrCallback_dom:
  "dom (fst s) \<subseteq> dom (fst (fst (styleAttrCallback H s tg as ch)))"
  by (cases s) (auto simp: styleAttrCallback_def Let_def split: option.splits)

lemma styleAttr_each_dom:
  "dom (fst s) \<subseteq> dom (fst (fst (each (styleAttrCallback H) s d)))"
  by (rule each_invariant[where I = "\<lambda>s'. dom (fst s) \<subseteq> dom (fst s')"])
     (use styleAttrCallback_dom in blast)+

lemma styleAttrCallback_covers:
  "map_of as ''style'' = Some v \<Longrightarrow> \<not> blank v \<Longrightarrow>
   normalizeStyleString v \<in> dom (fst (fst (styleAttrCallback H s tg as ch)))"
  by (cases s) (auto simp: styleAttrCallback_def Let_def split: option.splits)

lemma styleAttr_each_covers:
  "e \<in> set (elems d) \<Longrightarrow> map_of (fst (snd e)) ''style'' = Some v \<Longrightarrow> \<not> blank v \<Longrightarrow>
   normalizeStyleString v \<in> dom (fst (fst (each (styleAttrCallback H) s d)))"
proof (induction "styleAttrCallback H" s d rule: each.induct)
  case (1 s)
  then show ?case by simp
next
  case (2 s t ns)
  then show ?case by (cases "each (styleAttrCallback H) s ns") simp
next
  case (3 s tg as ch ns)
  obtain s1 act where f: "styleAttrCallback H s tg as ch = (s1, act)"
    by (cases "styleAttrCallback H s tg as ch")
  obtain s2 ch' where c: "each (styleAttrCallback H) s1 ch = (s2, ch')"
    by (cases "each (styleAttrCallback H) s1 ch")
  obtain s3 ns' where n: "each (styleAttrCallback H) s2 ns = (s3, ns')"
    by (cases "each (styleAttrCallback H) s2 ns")
  have d12: "dom (fst s1) \<subseteq> dom (fst s2)" using styleAttr_each_dom[of s1 H ch] c by simp
  have d23: "dom (fst s2) \<subseteq> dom (fst s3)" using styleAttr_each_dom[of s2 H ns] n by simp
  from "3.prems"(1) consider "e = (tg, as, ch)" | "e \<in> set (elems ch)" | "e \<in> set (elems ns)"
    by auto
  then have "normalizeStyleString v \<in> dom (fst s3)"
  proof cases
    case 1
    then have "normalizeStyleString v \<in> dom (fst s1)"
      using styleAttrCallback_covers[of as v H s tg ch] "3.prems" f by simp
    then show ?thesis using d12 d23 by blast
  next
    case 2
    then have "normalizeStyleString v \<in> dom (fst s2)"
      using "3.hyps"(1)[OF f[symmetric] 2 "3.prems"(2,3)] c by simp
    then show ?thesis using d23 by blast
  next
    case 3
    then show ?thesis
      using "3.hyps"(2)[OF f[symmetric] c[symmetric] 3 "3.prems"(2,3)] n by simp
  qed
  then show ?case using f c n by simp
qed

lemma normalizeStyleString_mset:
  assumes "mset (declarations a) = mset (declarations b)" and "a \<noteq> []" and "b \<noteq> []"
  shows "normalizeStyleString a = normalizeStyleString b"
proof -
  have "sort (declarations a) = sort (declarations b)"
    by (rule properties_for_sort) (simp_all add: assms(1))
  then show ?thesis using assms(2,3) by (simp add: normalizeStyleString_def)
qed

lemma extractCssChunks_dom:
  "snd (snd (extractCssChunks H d)) = mapAttrs (restyledAttrs H) (withoutStyleTags d)"
proof -
  obtain i cs1 m1 d1 where p1: "each styleTagCallback (0, [], False) d = ((i, cs1, m1), d1)"
    by (cases "each styleTagCallback (0, [], False) d") auto
  have "snd (each (styleAttrCallback H) (Map.empty, cs1, m1) d1) = mapAttrs (restyledAttrs H) d1"
    using styleAttr_each[of H "(Map.empty, cs1, m1)" d1] by (simp add: generatedNames_empty)
  then show ?thesis
    by (auto simp add: extractCssChunks_def withoutStyleTags_def p1 split: prod.splits)
qed

lemma extractCssChunks_rules:
  "generatedRules H (fst (extractCssChunks H d)) \<and> distinct (ruleKeys (fst (extractCssChunks H d)))
   \<and> (\<forall>e v. e \<in> set (elems (withoutStyleTags d)) \<longrightarrow> map_of (fst (snd e)) ''style'' = Some v
         \<longrightarrow> \<not> blank v \<longrightarrow> normalizeStyleString v \<in> set (ruleKeys (fst (extractCssChunks H d))))"
proof -
  obtain i cs1 m1 d1 where p1: "each styleTagCallback (0, [], False) d = ((i, cs1, m1), d1)"
    by (cases "each styleTagCallback (0, [], False) d") auto
  obtain m cs2 m2 d2 where
    p2: "each (styleAttrCallback H) (Map.empty, cs1, m1) d1 = ((m, cs2, m2), d2)"
    by (cases "each (styleAttrCallback H) (Map.empty, cs1, m1) d1") auto
  have k1: "ruleKeys cs1 = []" using styleTag_each_ruleKeys[of d] p1 by simp
  then have g1: "generatedRules H cs1" by (induction cs1 rule: ruleKeys.induct) simp_all
  have "styleInv H (Map.empty, cs1, m1)"
    by (simp add: styleInv_def generatedNames_empty k1 g1)
  then have inv: "styleInv H (m, cs2, m2)"
    using styleAttr_each_inv[of H "(Map.empty, cs1, m1)" d1] p2 by simp
  have cov: "normalizeStyleString v \<in> dom m"
    if "e \<in> set (elems d1)" "map_of (fst (snd e)) ''style'' = Some v" "\<not> blank v" for e v
    using styleAttr_each_covers[OF that, of H "(Map.empty, cs1, m1)"] p2 by simp
  have chunks: "fst (extractCssChunks H d) = cs2" and d1: "withoutStyleTags d = d1"
    by (simp_all add: extractCssChunks_def withoutStyleTags_def p1 p2)
  show ?thesis
    unfolding chunks d1 using inv cov by (auto simp: styleInv_def)
qed



subsection \<open>The separator and the stylesheet links of a document\<close>

lemma endsWith_append: "endsWith (x @ p) p"
  by (simp add: endsWith_def)

lemma blank_not_endsWith_separator: "blank e \<Longrightarrow> \<not> endsWith e cssSeparator"
proof
  assume b: "blank e" and "endsWith e cssSeparator"
  then have "drop (length e - length cssSeparator) e = cssSeparator"
    by (simp add: endsWith_def)
  then have "set cssSeparator \<subseteq> set e"
    using set_drop_subset[of "length e - length cssSeparator" e] by simp
  moreover have "CHR ''/'' \<in> set cssSeparator" by (simp add: cssSeparator_def)
  ultimately have "isSpace CHR ''/''" using b by (auto simp: blank_iff)
  then show False by (simp add: isSpace_def)
qed

lemma backslashesToSlashes_idem: "backslashesToSlashes (backslashesToSlashes s) = backslashesToSlashes s"
  by (simp add: backslashesToSlashes_def)

lemma headStylesheetLinks_append:
  "headStylesheetLinks b (xs @ ys) = headStylesheetLinks b xs @ headStylesheetLinks b ys"
  by (induction b xs rule: headStylesheetLinks.induct) simp_all

lemma countHeads_simps:
  "countHeads [] = 0"
  "countHeads (Text t # ns) = countHeads ns"
  "countHeads (Element tg as ch # ns)
     = (if tg = ''head'' then 1 else 0) + countHeads ch + countHeads ns"
  by (simp_all add: countHeads_def)

lemma relIsStylesheet_fragment: "relIsStylesheet [(''rel'', ''stylesheet''), (''href'', href)]"
  by (simp add: relIsStylesheet_def toLowerCase_def upperCaseLetters_def lowerCaseLetters_def)

lemma headStylesheetLinks_fragment:
  "headStylesheetLinks True (linkFragment href) = [[(''rel'', ''stylesheet''), (''href'', href)]]"
  by (simp add: linkFragment_def relIsStylesheet_fragment)

lemma hrefMatches_fragment:
  "href \<noteq> [] \<Longrightarrow> backslashesToSlashes href = href \<Longrightarrow>
   hrefMatches href [(''rel'', ''stylesheet''), (''href'', href)]"
  by (simp add: hrefMatches_def truthy_def)

lemma count_after_append:
  assumes "hrefMatches href [(''rel'', ''stylesheet''), (''href'', href)]"
  shows "length (filter (hrefMatches href)
           (headStylesheetLinks b (appendToHeads (linkFragment href) d)))
         = length (filter (hrefMatches href) (headStylesheetLinks b d)) + countHeads d"
proof (induction "linkFragment href" d arbitrary: b rule: appendToHeads.induct)
  case 1
  then show ?case by (simp add: countHeads_simps)
next
  case (2 t ns)
  then show ?case by (simp add: countHeads_simps)
next
  case (3 tg as ch ns)
  show ?case
    using "3.hyps"(1)[of "b \<or> tg = ''head''"] "3.hyps"(2)[of b] assms
    by (simp add: countHeads_simps headStylesheetLinks_append headStylesheetLinks_fragment)
qed

lemma list_ex_length_filter: "list_ex P xs \<longleftrightarrow> 0 < length (filter P xs)"
  by (induction xs) auto

subsection \<open>The length of a generated base name\<close>

text \<open>
  Claim C3, as the code has it. With \<open>maxLengthOf cfg\<close> the configured maximum (100 when
  it is 0) and a 64-character hex digest: a name whose sanitised form has at most that
  many characters is returned sanitised; a longer one is cut to
  \<open>max 10 (maxLengthOf cfg - 9)\<close> characters and gets \<^verbatim>\<open>_\<close> and the first 8 hex
  characters of the SHA-256 digest of the original, unsanitised name. The result has at
  most \<open>max (maxLengthOf cfg) 19\<close> characters: the bound of the configuration holds from
  a maximum of 19 on.
\<close>

theorem generateSafeBaseName_length:
  assumes "length (sha256hex H originalName) = 64"
  shows "generateSafeBaseName H originalName context cfg =
           (if int (length (sanitizeStringForFilename originalName)) \<le> maxLengthOf cfg
            then sanitizeStringForFilename originalName
            else take (nat (max 10 (maxLengthOf cfg - 9))) (sanitizeStringForFilename originalName)
                 @ ''_'' @ take 8 (sha256hex H originalName))
         \<and> int (length (generateSafeBaseName H originalName context cfg)) \<le> max (maxLengthOf cfg) 19"
proof -
  have hash: "length (take 8 (sha256hex H originalName)) = 8"
    using assms by simp
  have shape: "generateSafeBaseName H originalName context cfg =
           (if int (length (sanitizeStringForFilename originalName)) \<le> maxLengthOf cfg
            then sanitizeStringForFilename originalName
            else take (nat (max 10 (maxLengthOf cfg - 9))) (sanitizeStringForFilename originalName)
                 @ ''_'' @ take 8 (sha256hex H originalName))"
    unfolding generateSafeBaseName_def Let_def hash
    by (simp add: max_def)
  have bound: "int (length (generateSafeBaseName H originalName context cfg)) \<le> max (maxLengthOf cfg) 19"
  proof (cases "int (length (sanitizeStringForFilename originalName)) \<le> maxLengthOf cfg")
    case True
    then show ?thesis unfolding shape by simp
  next
    case False
    have "length (take (nat (max 10 (maxLengthOf cfg - 9))) (sanitizeStringForFilename originalName))
            \<le> nat (max 10 (maxLengthOf cfg - 9))"
      by simp
    then have "int (length (take (nat (max 10 (maxLengthOf cfg - 9)))
                 (sanitizeStringForFilename originalName) @ ''_'' @ take 8 (sha256hex H originalName)))
            \<le> max 10 (maxLengthOf cfg - 9) + 9"
      using hash by simp
    also have "\<dots> \<le> max (maxLengthOf cfg) 19" by simp
    finally show ?thesis unfolding shape using False by simp
  qed
  from shape bound show ?thesis by blast
qed

text \<open>
  The theorem at a long name and a maximum of 20: eleven characters are kept, and the
  result has exactly 20.
\<close>

theorem generateSafeBaseName_length_witness:
  "length (sha256hex sampleHost ''products_summer_collection_2024'') = 64
   \<and> generateSafeBaseName sampleHost ''products_summer_collection_2024'' ''CSS''
         (sampleConfig\<lparr>maxFilenameLength := 20\<rparr>) = ''products_su_d9d722ba''
   \<and> int (length (generateSafeBaseName sampleHost ''products_summer_collection_2024'' ''CSS''
         (sampleConfig\<lparr>maxFilenameLength := 20\<rparr>))) \<le> 20"
proof -
  have h: "length (sha256hex sampleHost ''products_summer_collection_2024'') = 64"
    by (simp add: sampleHost_def sampleSha256hex_def sampleDigests_def)
  show ?thesis
    using h generateSafeBaseName_length [OF h, of "''CSS''" "sampleConfig\<lparr>maxFilenameLength := 20\<rparr>"]
    by (simp add: sampleHost_def sampleSha256hex_def sampleDigests_def sampleConfig_def
        maxLengthOf_def sanitizeStringForFilename_def isSafeChar_def)
qed

text \<open>
  Claim C3 as stated fails for a maximum below 19. With the maximum 11, which the
  configuration prompt accepts, a name of twelve characters is cut to the ten the code
  always keeps, and the result has 19 characters.
\<close>

theorem generateSafeBaseName_exceeds_maximum:
  "generateSafeBaseName sampleHost ''aaaaaaaaaaaa'' ''JS'' (sampleConfig\<lparr>maxFilenameLength := 11\<rparr>)
     = ''aaaaaaaaaa_f24abc34''
   \<and> \<not> int (length (generateSafeBaseName sampleHost ''aaaaaaaaaaaa'' ''JS''
           (sampleConfig\<lparr>maxFilenameLength := 11\<rparr>)))
         \<le> maxFilenameLength (sampleConfig\<lparr>maxFilenameLength := 11\<rparr>)"
  by (simp add: generateSafeBaseName_def maxLengthOf_def sanitizeStringForFilename_def
      isSafeChar_def sampleHost_def sampleSha256hex_def sampleDigests_def sampleConfig_def)



subsection \<open>Generated class names\<close>

text \<open>
  Claim C10. The document that \<^verbatim>\<open>extractCssFromHtml\<close> returns is the document
  without its \<^verbatim>\<open>style\<close> elements in which every element is restyled by
  \<open>restyledAttrs\<close>: a non-blank \<^verbatim>\<open>style\<close> attribute is replaced by the class
  \<^verbatim>\<open>css-\<close> plus the first 8 hex characters of the SHA-256 digest of the normalised
  style. The class depends on the normalised style alone, not on the element, its
  position, the name of the document or what \<^verbatim>\<open>styleMap\<close> held before; and every
  rule emitted carries the class generated from its style.
\<close>

theorem class_name_is_function_of_style:
  "snd (snd (extractCssFromHtml H d htmlFilePath htmlFileBaseName))
     = mapAttrs (restyledAttrs H) (withoutStyleTags d)
   \<and> generatedRules H (fst (extractCssChunks H d))"
proof -
  have "snd (snd (extractCssFromHtml H d htmlFilePath htmlFileBaseName))
          = snd (snd (extractCssChunks H d))"
    by (simp add: extractCssFromHtml_def split: prod.splits)
  then show ?thesis
    using extractCssChunks_dom[of H d] extractCssChunks_rules[of H d] by simp
qed


text \<open>The theorem at the sample page: the \<^verbatim>\<open>div\<close> gets the class of \<^verbatim>\<open>color:red\<close>.\<close>

theorem class_name_is_function_of_style_witness:
  "snd (snd (extractCssFromHtml sampleHost pageDom ''/site/index.html'' ''index''))
     = mapAttrs (restyledAttrs sampleHost) (withoutStyleTags pageDom)
   \<and> mapAttrs (restyledAttrs sampleHost) (withoutStyleTags pageDom)
     = [Element ''html'' []
          [Element ''head'' [] [],
           Element ''body'' []
             [Element ''div'' [(''class'', ''css-f1ff77e5'')] [Text ''hi''],
              Element ''script'' [] [Text ''console.log(1)'']]]]"
proof -
  have "mapAttrs (restyledAttrs sampleHost) (withoutStyleTags pageDom)
     = [Element ''html'' []
          [Element ''head'' [] [],
           Element ''body'' []
             [Element ''div'' [(''class'', ''css-f1ff77e5'')] [Text ''hi''],
              Element ''script'' [] [Text ''console.log(1)'']]]]"
    by (simp add: withoutStyleTags_def restyledAttrs_def pageDom_def styleTagCallback_def
        string_defs dom_defs normalizeStyleString_def declarations_def sampleHost_def
        sampleSha256hex_def sampleDigests_def Let_def)
  then show ?thesis
    using class_name_is_function_of_style[of sampleHost pageDom "''/site/index.html''" "''index''"]
    by simp
qed


subsection \<open>Deduplication of equal styles\<close>

text \<open>
  Claim C5, as the code has it. Within one run, two elements whose non-blank
  \<^verbatim>\<open>style\<close> attributes split at \<^verbatim>\<open>;\<close> into the same trimmed, non-empty
  declarations, each as often as it occurs, in any order and with any white space around
  the declarations, receive the same class name, and the run emits exactly one rule for
  that style, with that class. The elements are taken at their positions \<open>i\<close> and \<open>j\<close> in
  document order, after the \<^verbatim>\<open>style\<close> elements are extracted.
\<close>

theorem equal_declarations_share_class_and_rule:
  assumes "i < length (elems (withoutStyleTags d))" and "j < length (elems (withoutStyleTags d))"
    and "map_of (fst (snd (elems (withoutStyleTags d) ! i))) ''style'' = Some a"
    and "map_of (fst (snd (elems (withoutStyleTags d) ! j))) ''style'' = Some b"
    and "\<not> blank a" and "\<not> blank b"
    and "mset (declarations a) = mset (declarations b)"
  shows "\<exists>className.
           fst (snd (elems (snd (snd (extractCssChunks H d))) ! i))
             = removeAttr ''style'' (addClass className (fst (snd (elems (withoutStyleTags d) ! i))))
         \<and> fst (snd (elems (snd (snd (extractCssChunks H d))) ! j))
             = removeAttr ''style'' (addClass className (fst (snd (elems (withoutStyleTags d) ! j))))
         \<and> filter (isRuleFor (normalizeStyleString a)) (fst (extractCssChunks H d))
             = [RuleChunk className (normalizeStyleString a)]"
proof -
  let ?d1 = "withoutStyleTags d"
  have ne: "a \<noteq> []" "b \<noteq> []" using assms(5,6) blank_Nil by auto
  have same: "normalizeStyleString a = normalizeStyleString b"
    by (rule normalizeStyleString_mset) (use assms(7) ne in simp_all)
  let ?c = "generateClassFromStyle H (normalizeStyleString a)"
  have dom: "snd (snd (extractCssChunks H d)) = mapAttrs (restyledAttrs H) ?d1"
    by (rule extractCssChunks_dom)
  have at: "fst (snd (elems (mapAttrs (restyledAttrs H) ?d1) ! k))
              = restyledAttrs H (fst (snd (elems ?d1 ! k)))" if "k < length (elems ?d1)" for k
    using that by (simp add: elems_mapAttrs)
  have ri: "restyledAttrs H (fst (snd (elems ?d1 ! i)))
              = removeAttr ''style'' (addClass ?c (fst (snd (elems ?d1 ! i))))"
    using assms(3,5) by (simp add: restyledAttrs_def generateClassFromStyle_eq)
  have rj: "restyledAttrs H (fst (snd (elems ?d1 ! j)))
              = removeAttr ''style'' (addClass ?c (fst (snd (elems ?d1 ! j))))"
    using assms(4,6) same by (simp add: restyledAttrs_def generateClassFromStyle_eq)
  have "elems ?d1 ! i \<in> set (elems ?d1)" using assms(1) by simp
  then have key: "normalizeStyleString a \<in> set (ruleKeys (fst (extractCssChunks H d)))"
    using extractCssChunks_rules[of H d] assms(3,5) by blast
  have one: "filter (isRuleFor (normalizeStyleString a)) (fst (extractCssChunks H d))
               = [RuleChunk ?c (normalizeStyleString a)]"
    by (rule filter_isRuleFor_one) (use key extractCssChunks_rules[of H d] in simp_all)
  show ?thesis
    using at[OF assms(1)] at[OF assms(2)] ri rj one unfolding dom by metis
qed

text \<open>
  The theorem at \<^verbatim>\<open>color:red;font-weight:bold\<close> and at \<^verbatim>\<open>font-weight:bold;\<close>
  followed by a no-break space, a space and \<^verbatim>\<open>color:red\<close>: one rule, one class.
\<close>

theorem equal_declarations_share_class_and_rule_witness:
  "filter (isRuleFor ''color:red;font-weight:bold'') (fst (extractCssChunks sampleHost reorderedStylesDom))
     = [RuleChunk ''css-63b5fc21'' ''color:red;font-weight:bold'']
   \<and> snd (snd (extractCssChunks sampleHost reorderedStylesDom))
     = [Element ''div'' [(''class'', ''css-63b5fc21'')] [Text ''a''],
        Element ''p'' [(''class'', ''css-63b5fc21'')] [Text ''b'']]"
  using equal_declarations_share_class_and_rule
    [of 0 reorderedStylesDom 1 "''color:red;font-weight:bold''"
        "''font-weight:bold;'' @ [CHR 0xA0] @ '' color:red''" sampleHost]
  by (simp add: withoutStyleTags_def reorderedStylesDom_def css_defs string_defs dom_defs
      util_defs sampleHost_def sampleSha256hex_def sampleDigests_def Let_def)


text \<open>
  Claim C5 as stated fails: white space inside a declaration and a repeated declaration
  survive the normalisation. \<^verbatim>\<open>color: red\<close> and \<^verbatim>\<open>color:red\<close> get two classes and
  two rules, and so do \<^verbatim>\<open>color:red;color:red\<close> and \<^verbatim>\<open>color:red\<close>.
\<close>

theorem inner_white_space_and_repetition_split_styles:
  "extractCssChunks sampleHost innerSpaceStylesDom
     = ([RuleChunk ''css-35eac301'' ''color: red'', RuleChunk ''css-f1ff77e5'' ''color:red''], True,
        [Element ''div'' [(''class'', ''css-35eac301'')] [Text ''a''],
         Element ''p'' [(''class'', ''css-f1ff77e5'')] [Text ''b'']])
   \<and> extractCssChunks sampleHost repeatedStylesDom
     = ([RuleChunk ''css-40b01239'' ''color:red;color:red'', RuleChunk ''css-f1ff77e5'' ''color:red''],
        True,
        [Element ''div'' [(''class'', ''css-40b01239'')] [Text ''a''],
         Element ''p'' [(''class'', ''css-f1ff77e5'')] [Text ''b'']])"
  by (simp add: innerSpaceStylesDom_def repeatedStylesDom_def css_defs string_defs dom_defs
      util_defs sampleHost_def sampleSha256hex_def sampleDigests_def Let_def)


subsection \<open>Saving CSS to a file that exists\<close>

text \<open>
  Claim C6, as the code has it. When the target file exists and the new content is not
  blank: nothing is written if the existing content contains the new content; otherwise
  the file is rewritten to the existing content followed by the new content, with the
  separator comment between them when the existing content is not blank, and with a
  newline only (none for an empty file) when it is blank. Nothing is put before the
  existing content: \<^verbatim>\<open>saveCssFile\<close> has no preamble.
\<close>

theorem saveCssFile_existing_file:
  assumes "files W (cssFilePath H cfg htmlFilePath cssFileBaseName) = Some existing"
    and "\<not> blank cssContent"
  shows "saveCssFile H W cssContent cssFileBaseName htmlFilePath cfg False =
           (Some (cssFilePath H cfg htmlFilePath cssFileBaseName),
            if includesStr existing cssContent
            then ensureDir (path_dirname H (cssFilePath H cfg htmlFilePath cssFileBaseName)) W
            else writeFile (cssFilePath H cfg htmlFilePath cssFileBaseName)
                   (if blank existing
                    then existing @ (if existing = [] then [] else nl) @ cssContent
                    else existing @ cssSeparator @ cssContent)
                   (ensureDir (path_dirname H (cssFilePath H cfg htmlFilePath cssFileBaseName)) W))"
  using assms
  by (simp add: saveCssFile_def Let_def endsWith_append blank_not_endsWith_separator)


text \<open>The theorem at a file that holds another rule: the new rule follows the separator.\<close>

theorem saveCssFile_existing_file_witness:
  "saveCssFile sampleHost (cssWorld ''.b{}'') ''.a{color:red}'' ''index'' ''/site/index.html''
     sampleConfig False
   = (Some ''/site/styles/extracted/index.css'',
      writeFile ''/site/styles/extracted/index.css'' (''.b{}'' @ cssSeparator @ ''.a{color:red}'')
        (ensureDir ''/site/styles/extracted'' (cssWorld ''.b{}'')))"
proof -
  have path: "cssFilePath sampleHost sampleConfig ''/site/index.html'' ''index''
                = ''/site/styles/extracted/index.css''"
    by (simp add: cssFilePath_def sampleHost_def sampleConfig_def sampleResolve_def string_defs)
  have dir: "path_dirname sampleHost ''/site/styles/extracted/index.css'' = ''/site/styles/extracted''"
    by (simp add: sampleHost_def sampleDirname_def)
  have f: "files (cssWorld ''.b{}'') (cssFilePath sampleHost sampleConfig ''/site/index.html'' ''index'')
             = Some ''.b{}''"
    by (simp add: path cssWorld_def)
  have nb: "\<not> blank ''.a{color:red}''" and nb': "\<not> blank ''.b{}''"
    by (simp_all add: string_defs)
  have ni: "\<not> includesStr ''.b{}'' ''.a{color:red}''"
    by (simp add: string_defs)
  show ?thesis
    using saveCssFile_existing_file[OF f nb] unfolding path dir
    by (simp add: string_defs)
qed

text \<open>
  Claim C6 as stated fails for a file that exists and is empty: the new content is not
  contained in it, and it is written with no separator comment. The same holds for a
  file of white space, here a no-break space and a newline: the new content follows
  after one more newline.
\<close>

theorem saveCssFile_blank_file_no_separator:
  "files (cssWorld []) ''/site/styles/extracted/index.css'' = Some []
   \<and> fst (saveCssFile sampleHost (cssWorld []) ''.a{color:red}'' ''index'' ''/site/index.html''
            sampleConfig False) = Some ''/site/styles/extracted/index.css''
   \<and> effects (snd (saveCssFile sampleHost (cssWorld []) ''.a{color:red}'' ''index''
            ''/site/index.html'' sampleConfig False))
       = [EnsureDir ''/site/styles/extracted'',
          WriteFile ''/site/styles/extracted/index.css'' ''.a{color:red}'']
   \<and> effects (snd (saveCssFile sampleHost (cssWorld [CHR 0xA0, CHR 0x0A]) ''.a{color:red}''
            ''index'' ''/site/index.html'' sampleConfig False))
       = [EnsureDir ''/site/styles/extracted'',
          WriteFile ''/site/styles/extracted/index.css''
            ([CHR 0xA0, CHR 0x0A, CHR 0x0A] @ ''.a{color:red}'')]"
  by (simp add: saveCssFile_def cssFilePath_def cssWorld_def cssSeparator_def world_defs
      sampleHost_def sampleConfig_def sampleResolve_def sampleDirname_def sampleRelative_def
      string_defs Let_def)

subsection \<open>The stylesheet link is added once\<close>

text \<open>
  Claim C8, as the code has it, for a document with a \<^verbatim>\<open>head\<close> element, as every
  parsed page has one. The link injector returns \<^verbatim>\<open>false\<close> and leaves the document
  as it is when a \<^verbatim>\<open>link\<close> element inside \<^verbatim>\<open>head\<close> whose \<^verbatim>\<open>rel\<close> is
  \<^verbatim>\<open>stylesheet\<close> in any case has an \<^verbatim>\<open>href\<close> that equals the computed one once
  its backslashes are replaced by slashes; otherwise it appends the link to \<^verbatim>\<open>head\<close>
  and returns \<^verbatim>\<open>true\<close>. For a computed \<^verbatim>\<open>href\<close> that is not empty, a second call
  on the result returns \<^verbatim>\<open>false\<close> and changes nothing, and in a document with one
  \<^verbatim>\<open>head\<close> the links in \<^verbatim>\<open>head\<close> with that \<^verbatim>\<open>href\<close> are one after the call
  when there was none, and as many as before otherwise.
\<close>

theorem addCssLinkToHtmlHead_no_duplicate:
  assumes "cssLinkHref H htmlFilePath cssFileBaseName cfg \<noteq> []"
    and "0 < countHeads d"
  shows "addCssLinkToHtmlHead H d htmlFilePath cssFileBaseName cfg
           = (if list_ex (hrefMatches (cssLinkHref H htmlFilePath cssFileBaseName cfg))
                   (headStylesheetLinks False d)
              then (False, d)
              else (True, appendToHeads (linkFragment (cssLinkHref H htmlFilePath cssFileBaseName cfg))
                            d))
       \<and> addCssLinkToHtmlHead H (snd (addCssLinkToHtmlHead H d htmlFilePath cssFileBaseName cfg))
             htmlFilePath cssFileBaseName cfg
           = (False, snd (addCssLinkToHtmlHead H d htmlFilePath cssFileBaseName cfg))
       \<and> (if countHeads d \<le> 1
           then length (filter (hrefMatches (cssLinkHref H htmlFilePath cssFileBaseName cfg))
                  (headStylesheetLinks False
                     (snd (addCssLinkToHtmlHead H d htmlFilePath cssFileBaseName cfg))))
                = max 1 (length (filter (hrefMatches (cssLinkHref H htmlFilePath cssFileBaseName cfg))
                                  (headStylesheetLinks False d)))
           else True)"
proof -
  let ?href = "cssLinkHref H htmlFilePath cssFileBaseName cfg"
  let ?count = "\<lambda>x. length (filter (hrefMatches ?href) (headStylesheetLinks False x))"
  have idem: "backslashesToSlashes ?href = ?href"
    by (simp add: cssLinkHref_def Let_def backslashesToSlashes_idem)
  have m: "hrefMatches ?href [(''rel'', ''stylesheet''), (''href'', ?href)]"
    using assms(1) idem by (rule hrefMatches_fragment)
  have shape: "addCssLinkToHtmlHead H d htmlFilePath cssFileBaseName cfg
           = (if list_ex (hrefMatches ?href) (headStylesheetLinks False d) then (False, d)
              else (True, appendToHeads (linkFragment ?href) d))"
    using assms(2) by (simp add: addCssLinkToHtmlHead_def Let_def)
  have after: "?count (appendToHeads (linkFragment ?href) d) = ?count d + countHeads d"
    using count_after_append[OF m, of False d] by simp
  then have found: "list_ex (hrefMatches ?href)
                      (headStylesheetLinks False (appendToHeads (linkFragment ?href) d))"
    using assms(2) by (simp add: list_ex_length_filter)
  have again: "addCssLinkToHtmlHead H (snd (addCssLinkToHtmlHead H d htmlFilePath cssFileBaseName cfg))
             htmlFilePath cssFileBaseName cfg
           = (False, snd (addCssLinkToHtmlHead H d htmlFilePath cssFileBaseName cfg))"
  proof (cases "list_ex (hrefMatches ?href) (headStylesheetLinks False d)")
    case True
    then show ?thesis by (simp add: addCssLinkToHtmlHead_def Let_def)
  next
    case False
    then show ?thesis unfolding shape using found by (simp add: addCssLinkToHtmlHead_def Let_def)
  qed
  have one: "?count (snd (addCssLinkToHtmlHead H d htmlFilePath cssFileBaseName cfg))
               = max 1 (?count d)" if "countHeads d \<le> 1"
  proof (cases "list_ex (hrefMatches ?href) (headStylesheetLinks False d)")
    case True
    then have "0 < ?count d" by (simp add: list_ex_length_filter)
    then have "max 1 (?count d) = ?count d" by arith
    then show ?thesis unfolding shape using True by simp
  next
    case False
    then have z: "?count d = 0" by (simp add: list_ex_length_filter)
    have "countHeads d = 1" using that assms(2) by arith
    then show ?thesis unfolding shape using False after z by simp
  qed
  show ?thesis using shape again one by simp
qed

text \<open>The theorem at the sample page: the first call adds the link, the second does not.\<close>

theorem addCssLinkToHtmlHead_no_duplicate_witness:
  "cssLinkHref sampleHost ''/site/index.html'' ''index'' sampleConfig = ''assets/css/index.css''
   \<and> 0 < countHeads pageDom
   \<and> fst (addCssLinkToHtmlHead sampleHost pageDom ''/site/index.html'' ''index'' sampleConfig)
   \<and> addCssLinkToHtmlHead sampleHost
         (snd (addCssLinkToHtmlHead sampleHost pageDom ''/site/index.html'' ''index'' sampleConfig))
         ''/site/index.html'' ''index'' sampleConfig
       = (False, snd (addCssLinkToHtmlHead sampleHost pageDom ''/site/index.html'' ''index''
                        sampleConfig))"
proof -
  have href: "cssLinkHref sampleHost ''/site/index.html'' ''index'' sampleConfig
                = ''assets/css/index.css''"
    by (simp add: cssLinkHref_def sampleHost_def sampleConfig_def sampleDirname_def
        sampleResolve_def sampleRelative_def string_defs)
  then have ne: "cssLinkHref sampleHost ''/site/index.html'' ''index'' sampleConfig \<noteq> []"
    by simp
  have heads: "0 < countHeads pageDom"
    by (simp add: pageDom_def countHeads_def)
  have added: "fst (addCssLinkToHtmlHead sampleHost pageDom ''/site/index.html'' ''index''
                      sampleConfig)"
    by (simp add: addCssLinkToHtmlHead_def href pageDom_def hrefMatches_def truthy_def)
  have again: "addCssLinkToHtmlHead sampleHost
         (snd (addCssLinkToHtmlHead sampleHost pageDom ''/site/index.html'' ''index'' sampleConfig))
         ''/site/index.html'' ''index'' sampleConfig
       = (False, snd (addCssLinkToHtmlHead sampleHost pageDom ''/site/index.html'' ''index''
                        sampleConfig))"
    using addCssLinkToHtmlHead_no_duplicate[OF ne heads] by blast
  show ?thesis
    using href heads added again by blast
qed

text \<open>
  Claim C8 as stated fails. A link with exactly the computed \<^verbatim>\<open>href\<close> that stands in
  the body is not seen: the call returns \<^verbatim>\<open>true\<close>, and the document then has two
  links with that \<^verbatim>\<open>href\<close>. A link in the head whose \<^verbatim>\<open>href\<close> is written with
  backslashes counts as present: the call returns \<^verbatim>\<open>false\<close> though no link has
  exactly the computed \<^verbatim>\<open>href\<close>.
\<close>

theorem addCssLinkToHtmlHead_misses_body_link:
  "addCssLinkToHtmlHead sampleHost bodyLinkDom ''/site/index.html'' ''index'' sampleConfig
     = (True,
        [Element ''html'' []
           [Element ''head'' []
              [Text (nl @ ''    ''),
               Element ''link'' [(''rel'', ''stylesheet''), (''href'', ''assets/css/index.css'')] [],
               Text (nl @ ''  '')],
            Element ''body'' []
              [Element ''link'' [(''rel'', ''stylesheet''), (''href'', ''assets/css/index.css'')]
                 []]]])
   \<and> addCssLinkToHtmlHead sampleHost backslashLinkDom ''/site/index.html'' ''index'' sampleConfig
     = (False, backslashLinkDom)"
  by (simp add: addCssLinkToHtmlHead_def cssLinkHref_def bodyLinkDom_def backslashLinkDom_def
      hrefMatches_def linkFragment_def countHeads_def relIsStylesheet_def toLowerCase_def
      upperCaseLetters_def lowerCaseLetters_def sampleHost_def sampleConfig_def
      sampleDirname_def sampleResolve_def sampleRelative_def string_defs Let_def)

subsection \<open>A script file that exists\<close>

text \<open>
  Claim C1, as the code has it. A real run gives the script the name
  \<open>chosenScriptName\<close>: the planned name when no file exists at the computed path, and
  the name made unique by \<^verbatim>\<open>-conflict-\<close> and the time stamp whenever a file exists
  there, whatever its content. It always writes the script to the file of that name,
  records that path, and sets \<^verbatim>\<open>src\<close> to that name.
\<close>

theorem existing_script_file_is_never_reused:
  "snd (extractScriptTag H cfg False htmlFilePath safeJsFileBase n st as ch)
     = Emptied (AList.update ''src''
         (jsSrcAttr H cfg htmlFilePath (chosenScriptName H cfg htmlFilePath safeJsFileBase n st)) as)
   \<and> effects (loopWorld (fst (extractScriptTag H cfg False htmlFilePath safeJsFileBase n st as ch)))
     = effects (loopWorld st)
       @ [EnsureDir (path_dirname H (jsFilePath H cfg htmlFilePath
                       (chosenScriptName H cfg htmlFilePath safeJsFileBase n st))),
          WriteFile (jsFilePath H cfg htmlFilePath
                       (chosenScriptName H cfg htmlFilePath safeJsFileBase n st))
            (trim (html ch))]
   \<and> extractedJsFiles (fst (extractScriptTag H cfg False htmlFilePath safeJsFileBase n st as ch))
     = extractedJsFiles st
       @ [\<lparr>sourcePath = jsFilePath H cfg htmlFilePath
                           (chosenScriptName H cfg htmlFilePath safeJsFileBase n st),
           content = trim (html ch)\<rparr>]"
  by (simp add: extractScriptTag_def chosenScriptName_def plannedScriptName_def
      conflictScriptName_def world_defs Let_def split: option.splits)

text \<open>
  The theorem in a world where the file exists with the very content of the script: the
  name is the unique one.
\<close>

theorem existing_script_file_is_never_reused_witness:
  "files scriptWorld ''/site/index.js'' = Some ''console.log(1)''
   \<and> chosenScriptName sampleHost sampleConfig ''/site/index.html'' ''index'' 1
         \<lparr>originalIndex = 0, loopIndex = 0, loopWorld = scriptWorld, extractedJsFiles = [],
          jsModifiedInHtml = False\<rparr> = ''index-conflict-1700000000000.js''
   \<and> snd (extractScriptTag sampleHost sampleConfig False ''/site/index.html'' ''index'' 1
        \<lparr>originalIndex = 0, loopIndex = 0, loopWorld = scriptWorld, extractedJsFiles = [],
         jsModifiedInHtml = False\<rparr> [] [Text ''console.log(1)''])
     = Emptied [(''src'', ''index-conflict-1700000000000.js'')]"
proof -
  let ?st = "\<lparr>originalIndex = 0, loopIndex = 0, loopWorld = scriptWorld, extractedJsFiles = [],
          jsModifiedInHtml = False\<rparr>"
  have f: "files scriptWorld ''/site/index.js'' = Some ''console.log(1)''"
    by (simp add: scriptWorld_def)
  have name: "chosenScriptName sampleHost sampleConfig ''/site/index.html'' ''index'' 1 ?st
                = ''index-conflict-1700000000000.js''"
    by (simp add: chosenScriptName_def plannedScriptName_def conflictScriptName_def
        jsFilePath_def scriptSuffix_def sampleHost_def sampleConfig_def sampleDirname_def
        scriptWorld_def dec.simps)
  have src: "jsSrcAttr sampleHost sampleConfig ''/site/index.html'' ''index-conflict-1700000000000.js''
               = ''index-conflict-1700000000000.js''"
    by (simp add: jsSrcAttr_def sampleConfig_def backslashesToSlashes_def)
  have "snd (extractScriptTag sampleHost sampleConfig False ''/site/index.html'' ''index'' 1 ?st []
               [Text ''console.log(1)''])
          = Emptied (AList.update ''src''
              (jsSrcAttr sampleHost sampleConfig ''/site/index.html''
                 (chosenScriptName sampleHost sampleConfig ''/site/index.html'' ''index'' 1 ?st)) [])"
    using existing_script_file_is_never_reused
      [of sampleHost sampleConfig "''/site/index.html''" "''index''" 1 ?st "[]"
          "[Text ''console.log(1)'']"]
    by blast
  then show ?thesis using f name src by simp
qed

text \<open>
  Claim C1 as stated fails: with a file of identical content at the computed path, the
  extractor still writes a new file under a unique name and puts that name into
  \<^verbatim>\<open>src\<close>.
\<close>

theorem identical_script_file_is_not_reused:
  "files scriptWorld ''/site/index.js'' = Some ''console.log(1)''
   \<and> fst (snd (extractJsFromHtml sampleHost scriptWorld scriptDom ''/site/index.html'' ''index''
                  sampleConfig False))
       = [\<lparr>sourcePath = ''/site/index-conflict-1700000000000.js'', content = ''console.log(1)''\<rparr>]
   \<and> fst (snd (snd (extractJsFromHtml sampleHost scriptWorld scriptDom ''/site/index.html''
                  ''index'' sampleConfig False)))
       = [Element ''html'' []
            [Element ''head'' [] [],
             Element ''body'' []
               [Element ''script'' [(''src'', ''index-conflict-1700000000000.js'')] []]]]
   \<and> effects (snd (snd (snd (extractJsFromHtml sampleHost scriptWorld scriptDom
                  ''/site/index.html'' ''index'' sampleConfig False))))
       = [EnsureDir ''/site'',
          WriteFile ''/site/index-conflict-1700000000000.js'' ''console.log(1)'']"
  by (simp add: scriptWorld_def scriptDom_def js_defs dom_defs string_defs util_defs world_defs
      sampleHost_def sampleConfig_def sampleDirname_def sampleRelative_def dec.simps Let_def
      cong: let_weak_cong prod.case_cong_weak)

subsection \<open>A source file that cannot be read\<close>

text \<open>
  Claim C2, as the code has it. When the HTML file cannot be read,
  \<^verbatim>\<open>processHtmlFile\<close> catches the error: it logs it, changes nothing else and
  returns \<^verbatim>\<open>false\<close>; the loop of \<^verbatim>\<open>runRefactorProcess\<close> counts the file as
  processed and not changed, and goes on with the remaining files.
\<close>

theorem read_failure_is_caught:
  assumes "files W htmlFilePath = None"
  shows "processHtmlFile H W htmlFilePath cfg isDryRun
           = (False, logReport (ProcessingError htmlFilePath) W)
       \<and> processFiles H cfg isDryRun (htmlFilePath # rest) (processedFileCount, changedFileCount, W)
           = processFiles H cfg isDryRun rest
               (processedFileCount + 1, changedFileCount, logReport (ProcessingError htmlFilePath) W)"
  using assms by (simp add: processHtmlFile_def processHtmlFileTry_def)

text \<open>The theorem for a path at which the sample world has no file.\<close>

theorem read_failure_is_caught_witness:
  "files scriptOnlyWorld ''/site/missing.html'' = None
   \<and> processHtmlFile sampleHost scriptOnlyWorld ''/site/missing.html'' sampleConfig False
       = (False, logReport (ProcessingError ''/site/missing.html'') scriptOnlyWorld)"
proof -
  have f: "files scriptOnlyWorld ''/site/missing.html'' = None"
    by (simp add: scriptOnlyWorld_def)
  show ?thesis
    using f read_failure_is_caught[OF f, of sampleHost sampleConfig False] by blast
qed

text \<open>
  Claim C2 as stated fails: in a batch of a file that cannot be read and a page with an
  inline script, the error of the first is logged, and the second is processed and
  changed, with its script and the page written.
\<close>

theorem batch_continues_after_read_failure:
  "files scriptOnlyWorld ''/site/missing.html'' = None
   \<and> (case runRefactorProcess sampleHost scriptOnlyWorld sampleConfig False
              [''/site/missing.html'', ''/site/index.html''] of
         (processedFileCount, changedFileCount, W) \<Rightarrow>
           processedFileCount = 2 \<and> changedFileCount = 1
           \<and> reports W = [ProcessingError ''/site/missing.html'']
           \<and> effects W
               = [EnsureDir ''/site/styles/extracted'', EnsureDir ''/site'',
                  WriteFile ''/site/index.js'' ''console.log(1)'',
                  CopyFile ''/site/index.html'' ''/site/index.html.bak'',
                  WriteFile ''/site/index.html'' (html scriptDomRefactored)])"
  by (simp add: all_defs dec.simps Let_def cong: let_weak_cong prod.case_cong_weak)


subsection \<open>The names of extracted scripts\<close>

lemma scriptsOf_simps:
  "scriptsOf [] = []"
  "scriptsOf (Text t # ns) = scriptsOf ns"
  "scriptsOf (Element tg as ch # ns)
     = (if tg = ''script'' then [(as, ch)] else []) @ scriptsOf ch @ scriptsOf ns"
  by (simp_all add: scriptsOf_def)

lemma toProcessFrom_simps:
  "toProcessFrom k [] = []"
  "toProcessFrom k (Text t # ns) = toProcessFrom k ns"
  "toProcessFrom k (Element tg as ch # ns)
     = (if tg = ''script'' \<and> isInlineScript as ch then [(k, as, ch)] else [])
       @ toProcessFrom (k + (if tg = ''script'' then 1 else 0)) ch
       @ toProcessFrom (k + (if tg = ''script'' then 1 else 0) + length (scriptsOf ch)) ns"
  by (simp_all add: toProcessFrom_def scriptsOf_simps enumerate_append_eq add.assoc)

lemma scriptTagsToProcess_eq: "scriptTagsToProcess d = toProcessFrom 0 d"
  by (simp add: scriptTagsToProcess_def toProcessFrom_def scriptsOf_def)

lemma scriptSuffix_eq:
  "scriptSuffix n index = (if 2 \<le> n then ''_s'' @ dec (index + 1) else [])"
  by (simp add: scriptSuffix_def)

lemma scriptCallback_other:
  "tg \<noteq> ''script'' \<Longrightarrow> scriptCallback H cfg dry p safe n st tg as ch = (st, Keep as)"
  by (simp add: scriptCallback_def)

lemma scriptCallback_skip:
  "\<not> isInlineScript as ch \<Longrightarrow>
   scriptCallback H cfg dry p safe n st ''script'' as ch
     = (st\<lparr>originalIndex := originalIndex st + 1\<rparr>, Keep as)"
  by (simp add: scriptCallback_def)

lemma scriptCallback_extract:
  assumes "isInlineScript as ch"
  shows "originalIndex (fst (scriptCallback H cfg dry p safe n st ''script'' as ch))
           = originalIndex st + 1"
    and "loopIndex (fst (scriptCallback H cfg dry p safe n st ''script'' as ch))
           = loopIndex st + 1"
    and "jsModifiedInHtml (fst (scriptCallback H cfg dry p safe n st ''script'' as ch))"
    and "\<exists>f. extractedJsFiles (fst (scriptCallback H cfg dry p safe n st ''script'' as ch))
               = extractedJsFiles st @ [f]
             \<and> namedByOriginalIndex H cfg p safe n dry f (loopIndex st, originalIndex st, as, ch)"
  using assms
  by (auto simp: scriptCallback_def extractScriptTag_def namedByOriginalIndex_def
      scriptSuffix_eq Let_def)


lemma inlineFrom_simps:
  "inlineFrom k [] = []"
  "inlineFrom k (xs @ ys) = inlineFrom k xs @ inlineFrom (k + length xs) ys"
  "inlineFrom k [(as, ch)] = (if isInlineScript as ch then [(k, as, ch)] else [])"
  by (simp_all add: inlineFrom_def enumerate_append_eq)

lemma toProcessFrom_inlineFrom: "toProcessFrom k d = inlineFrom k (scriptsOf d)"
  by (simp add: toProcessFrom_def inlineFrom_def)

lemma scriptLoopStep_nil: "scriptLoopStep H cfg p safe n dry st [] st"
  by (simp add: scriptLoopStep_def inlineFrom_simps)

lemma scriptLoopStep_trans:
  assumes "scriptLoopStep H cfg p safe n dry st xs st1"
    and "scriptLoopStep H cfg p safe n dry st1 ys st2"
  shows "scriptLoopStep H cfg p safe n dry st (xs @ ys) st2"
proof -
  from assms(1) obtain new1 where
    o1: "originalIndex st1 = originalIndex st + length xs"
    and l1: "loopIndex st1 = loopIndex st + length (inlineFrom (originalIndex st) xs)"
    and m1: "jsModifiedInHtml st1 = (jsModifiedInHtml st \<or> inlineFrom (originalIndex st) xs \<noteq> [])"
    and e1: "extractedJsFiles st1 = extractedJsFiles st @ new1"
    and n1: "list_all2 (namedByOriginalIndex H cfg p safe n dry) new1
               (enumerate (loopIndex st) (inlineFrom (originalIndex st) xs))"
    unfolding scriptLoopStep_def by blast
  from assms(2) obtain new2 where
    o2: "originalIndex st2 = originalIndex st1 + length ys"
    and l2: "loopIndex st2 = loopIndex st1 + length (inlineFrom (originalIndex st1) ys)"
    and m2: "jsModifiedInHtml st2 = (jsModifiedInHtml st1 \<or> inlineFrom (originalIndex st1) ys \<noteq> [])"
    and e2: "extractedJsFiles st2 = extractedJsFiles st1 @ new2"
    and n2: "list_all2 (namedByOriginalIndex H cfg p safe n dry) new2
               (enumerate (loopIndex st1) (inlineFrom (originalIndex st1) ys))"
    unfolding scriptLoopStep_def by blast
  have "list_all2 (namedByOriginalIndex H cfg p safe n dry) (new1 @ new2)
          (enumerate (loopIndex st) (inlineFrom (originalIndex st) (xs @ ys)))"
    using n1 n2 by (simp add: inlineFrom_simps enumerate_append_eq o1 l1 list_all2_appendI)
  moreover have "extractedJsFiles st2 = extractedJsFiles st @ (new1 @ new2)"
    using e1 e2 by simp
  ultimately have "\<exists>new. extractedJsFiles st2 = extractedJsFiles st @ new
            \<and> list_all2 (namedByOriginalIndex H cfg p safe n dry) new
                 (enumerate (loopIndex st) (inlineFrom (originalIndex st) (xs @ ys)))"
    by blast
  then show ?thesis
    unfolding scriptLoopStep_def using o1 o2 l1 l2 m1 m2
    by (simp add: inlineFrom_simps)
qed

lemma scriptLoopStep_callback:
  "scriptLoopStep H cfg p safe n dry st (if tg = ''script'' then [(as, ch)] else [])
     (fst (scriptCallback H cfg dry p safe n st tg as ch))"
proof (cases "tg = ''script''")
  case False
  then show ?thesis by (simp add: scriptCallback_other scriptLoopStep_nil)
next
  case True
  show ?thesis
  proof (cases "isInlineScript as ch")
    case False
    then show ?thesis using True
      by (simp add: scriptCallback_skip scriptLoopStep_def inlineFrom_simps)
  next
    case inl: True
    from scriptCallback_extract[OF inl, of H cfg dry p safe n st]
    show ?thesis using True inl
      by (auto simp: scriptLoopStep_def inlineFrom_simps enumerate_simps)
  qed
qed

lemma script_each:
  "scriptLoopStep H cfg p safe n dry st (scriptsOf d)
     (fst (each (scriptCallback H cfg dry p safe n) st d))"
proof (induction "scriptCallback H cfg dry p safe n" st d rule: each.induct)
  case (1 s)
  then show ?case by (simp add: scriptsOf_simps scriptLoopStep_nil)
next
  case (2 s t ns)
  then show ?case by (auto simp: scriptsOf_simps split: prod.splits)
next
  case (3 s tg as ch ns)
  obtain s1 act where f: "scriptCallback H cfg dry p safe n s tg as ch = (s1, act)"
    by (cases "scriptCallback H cfg dry p safe n s tg as ch")
  obtain s2 ch' where c: "each (scriptCallback H cfg dry p safe n) s1 ch = (s2, ch')"
    by (cases "each (scriptCallback H cfg dry p safe n) s1 ch")
  obtain s3 ns' where r: "each (scriptCallback H cfg dry p safe n) s2 ns = (s3, ns')"
    by (cases "each (scriptCallback H cfg dry p safe n) s2 ns")
  have a: "scriptLoopStep H cfg p safe n dry s (if tg = ''script'' then [(as, ch)] else []) s1"
    using scriptLoopStep_callback[of H cfg p safe n dry s tg as ch] f by simp
  have b: "scriptLoopStep H cfg p safe n dry s1 (scriptsOf ch) s2"
    using "3.hyps"(1)[OF f[symmetric]] c by simp
  have d: "scriptLoopStep H cfg p safe n dry s2 (scriptsOf ns) s3"
    using "3.hyps"(2)[OF f[symmetric] c[symmetric]] r by simp
  show ?case
    using scriptLoopStep_trans[OF a scriptLoopStep_trans[OF b d]] f c r
    by (simp add: scriptsOf_simps)
qed

text \<open>
  Claim C7. The files \<^verbatim>\<open>extractJsFromHtml\<close> records are those of the inline scripts
  of the document, in document order, each with the trimmed content of its script. With
  at least two inline scripts, the name of each carries \<^verbatim>\<open>_s\<close> and the index of
  its script among all \<^verbatim>\<open>script\<close> elements of the document, plus one; with one
  inline script the name has no such suffix. (In a real run the name can also carry the
  mark of a conflict, after the suffix.)
\<close>

theorem script_files_named_by_original_index:
  "list_all2
     (namedByOriginalIndex H cfg htmlFilePath (generateSafeBaseName H htmlFileBaseName ''JS'' cfg)
        (length (scriptTagsToProcess d)) isDryRun)
     (fst (snd (extractJsFromHtml H W d htmlFilePath htmlFileBaseName cfg isDryRun)))
     (enumerate 0 (scriptTagsToProcess d))"
proof (cases "scriptTagsToProcess d = []")
  case True
  then show ?thesis by (simp add: extractJsFromHtml_def)
next
  case False
  let ?safe = "generateSafeBaseName H htmlFileBaseName ''JS'' cfg"
  let ?n = "length (scriptTagsToProcess d)"
  let ?st = "\<lparr>originalIndex = 0, loopIndex = 0, loopWorld = W, extractedJsFiles = [],
              jsModifiedInHtml = False\<rparr>"
  have "scriptLoopStep H cfg htmlFilePath ?safe ?n isDryRun ?st (scriptsOf d)
          (fst (each (scriptCallback H cfg isDryRun htmlFilePath ?safe ?n) ?st d))"
    by (rule script_each)
  then have "list_all2 (namedByOriginalIndex H cfg htmlFilePath ?safe ?n isDryRun)
          (extractedJsFiles (fst (each (scriptCallback H cfg isDryRun htmlFilePath ?safe ?n) ?st d)))
          (enumerate 0 (scriptTagsToProcess d))"
    by (auto simp: scriptLoopStep_def scriptTagsToProcess_eq toProcessFrom_inlineFrom)
  then show ?thesis using False
    by (auto simp: extractJsFromHtml_def Let_def split: prod.splits)
qed

text \<open>
  The theorem for the page with three inline scripts and an external one in second
  place: the indices are 0, 2 and 3 and the files are named \<^verbatim>\<open>_s1\<close>, \<^verbatim>\<open>_s3\<close>
  and \<^verbatim>\<open>_s4\<close>; the file of the page with one inline script has no suffix.
\<close>

theorem script_files_named_by_original_index_witness:
  "list_all2
     (namedByOriginalIndex sampleHost sampleConfig ''/site/index.html''
        (generateSafeBaseName sampleHost ''index'' ''JS'' sampleConfig)
        (length (scriptTagsToProcess interleavedScriptsDom)) False)
     (fst (snd (extractJsFromHtml sampleHost scriptOnlyWorld interleavedScriptsDom
                  ''/site/index.html'' ''index'' sampleConfig False)))
     (enumerate 0 (scriptTagsToProcess interleavedScriptsDom))
   \<and> map fst (scriptTagsToProcess interleavedScriptsDom) = [0, 2, 3]
   \<and> map sourcePath (fst (snd (extractJsFromHtml sampleHost scriptOnlyWorld interleavedScriptsDom
                  ''/site/index.html'' ''index'' sampleConfig False)))
       = [''/site/index_s1.js'', ''/site/index_s3.js'', ''/site/index_s4.js'']
   \<and> map sourcePath (fst (snd (extractJsFromHtml sampleHost scriptOnlyWorld scriptDom
                  ''/site/index.html'' ''index'' sampleConfig False)))
       = [''/site/index.js'']"
proof -
  have a: "map fst (scriptTagsToProcess interleavedScriptsDom) = [0, 2, 3]"
    by (simp add: scriptTagsToProcess_def interleavedScriptsDom_def isInlineScript_def
        truthy_def blank_def html_def string_defs enumerate_simps)
  have b: "map sourcePath (fst (snd (extractJsFromHtml sampleHost scriptOnlyWorld
                  interleavedScriptsDom ''/site/index.html'' ''index'' sampleConfig False)))
       = [''/site/index_s1.js'', ''/site/index_s3.js'', ''/site/index_s4.js'']"
    by (simp add: all_defs interleavedScriptsDom_def dec.simps Let_def
        cong: let_weak_cong prod.case_cong_weak)
  have c: "map sourcePath (fst (snd (extractJsFromHtml sampleHost scriptOnlyWorld scriptDom
                  ''/site/index.html'' ''index'' sampleConfig False)))
       = [''/site/index.js'']"
    by (simp add: all_defs dec.simps Let_def
        cong: let_weak_cong prod.case_cong_weak)
  show ?thesis
    using a b c script_files_named_by_original_index
      [of sampleHost sampleConfig "''/site/index.html''" "''index''" interleavedScriptsDom
          False scriptOnlyWorld]
    by blast
qed


subsection \<open>A dry run\<close>

lemma dry_saveCssFile:
  "files (snd (saveCssFile H W cssContent cssFileBaseName htmlFilePath cfg True)) = files W
   \<and> effects (snd (saveCssFile H W cssContent cssFileBaseName htmlFilePath cfg True)) = effects W"
  by (simp add: saveCssFile_def logReport_def Let_def split: option.splits)

lemma dry_scriptCallback:
  "files (loopWorld (fst (scriptCallback H cfg True p safe n st tg as ch))) = files (loopWorld st)
   \<and> effects (loopWorld (fst (scriptCallback H cfg True p safe n st tg as ch)))
       = effects (loopWorld st)"
  by (simp add: scriptCallback_def extractScriptTag_def logReport_def Let_def)

lemma dry_script_each:
  "files (loopWorld (fst (each (scriptCallback H cfg True p safe n) st d))) = files (loopWorld st)
   \<and> effects (loopWorld (fst (each (scriptCallback H cfg True p safe n) st d)))
       = effects (loopWorld st)"
  using each_invariant
    [where I = "\<lambda>s. files (loopWorld s) = files (loopWorld st)
                  \<and> effects (loopWorld s) = effects (loopWorld st)"
       and f = "scriptCallback H cfg True p safe n" and s = st and d = d]
  by (simp add: dry_scriptCallback)

lemma dry_extractJsFromHtml:
  "files (snd (snd (snd (extractJsFromHtml H W d p base cfg True)))) = files W
   \<and> effects (snd (snd (snd (extractJsFromHtml H W d p base cfg True)))) = effects W"
proof -
  let ?st = "\<lparr>originalIndex = 0, loopIndex = 0, loopWorld = W, extractedJsFiles = [],
              jsModifiedInHtml = False\<rparr>"
  show ?thesis
    using dry_script_each[of H cfg p "generateSafeBaseName H base ''JS'' cfg"
        "length (scriptTagsToProcess d)" ?st d]
    by (auto simp: extractJsFromHtml_def Let_def split: prod.splits)
qed

lemma dry_copyJs_fold:
  "files (fold (copyJsToDist H cfg True) jsFiles W) = files W
   \<and> effects (fold (copyJsToDist H cfg True) jsFiles W) = effects W"
  by (induction jsFiles arbitrary: W) (simp_all add: copyJsToDist_def logReport_def Let_def)

lemma dry_copyToDistStep:
  "files (copyToDistStep H cfg True p c jsFiles W) = files W
   \<and> effects (copyToDistStep H cfg True p c jsFiles W) = effects W"
  by (simp add: copyToDistStep_def Let_def dry_copyJs_fold logReport_def)

lemma dry_saveAndLinkCss:
  "files (snd (snd (saveAndLinkCss H W d1 p cfg True css m))) = files W
   \<and> effects (snd (snd (saveAndLinkCss H W d1 p cfg True css m))) = effects W"
proof -
  obtain r W1 where s: "saveCssFile H W css (generateCssFileBaseName H p cfg) p cfg True = (r, W1)"
    by (cases "saveCssFile H W css (generateCssFileBaseName H p cfg) p cfg True")
  have w1: "files W1 = files W \<and> effects W1 = effects W"
    using dry_saveCssFile[of H W css "generateCssFileBaseName H p cfg" p cfg] s by simp
  show ?thesis
    using s w1
    by (simp add: saveAndLinkCss_def Let_def logReport_def split: prod.splits option.splits)
qed

lemma dry_refactorDocument:
  "files (snd (snd (snd (refactorDocument H W p cfg True c)))) = files W
   \<and> effects (snd (snd (snd (refactorDocument H W p cfg True c)))) = effects W"
proof -
  obtain css m d1 where e: "extractCssFromHtml H (cheerio_load H c) p (path_basename H p ''.html'')
      = (css, m, d1)" by (metis prod_cases3)
  obtain l d2 W1 where s: "saveAndLinkCss H W d1 p cfg True css m = (l, d2, W1)"
    by (metis prod_cases3)
  have w1: "files W1 = files W \<and> effects W1 = effects W"
    using dry_saveAndLinkCss[of H W d1 p cfg css m] s by simp
  obtain jm js d3 W2 where j: "extractJsFromHtml H W1 d2 p
      (sanitizeStringForFilename (path_basename H p ''.html'')) cfg True = (jm, js, d3, W2)"
    by (metis prod_cases4)
  have w2: "files W2 = files W1 \<and> effects W2 = effects W1"
    using dry_extractJsFromHtml[of H W1 d2 p
        "sanitizeStringForFilename (path_basename H p ''.html'')" cfg] j by simp
  show ?thesis
    using e s j w1 w2 by (simp add: refactorDocument_def Let_def)
qed

lemma dry_processHtmlFile:
  "files (snd (processHtmlFile H W p cfg True)) = files W
   \<and> effects (snd (processHtmlFile H W p cfg True)) = effects W"
proof (cases "files W p")
  case None
  then show ?thesis by (simp add: processHtmlFile_def processHtmlFileTry_def logReport_def)
next
  case (Some c)
  obtain chg js d3 W2 where r: "refactorDocument H W p cfg True c = (chg, js, d3, W2)"
    by (metis prod_cases4)
  have w2: "files W2 = files W \<and> effects W2 = effects W"
    using dry_refactorDocument[of H W p cfg c] r by simp
  show ?thesis
    using Some r w2
    by (simp add: processHtmlFile_def processHtmlFileTry_def Let_def logReport_def
        dry_copyToDistStep)
qed

lemma dry_processFiles:
  "files (snd (snd (processFiles H cfg True fs acc))) = files (snd (snd acc))
   \<and> effects (snd (snd (processFiles H cfg True fs acc))) = effects (snd (snd acc))"
proof (induction fs arbitrary: acc)
  case Nil
  then show ?case by simp
next
  case (Cons p fs)
  obtain a b W where acc: "acc = (a, b, W)" by (metis prod_cases3)
  obtain chg W' where r: "processHtmlFile H W p cfg True = (chg, W')"
    by (cases "processHtmlFile H W p cfg True")
  have "files W' = files W \<and> effects W' = effects W"
    using dry_processHtmlFile[of H W p cfg] r by simp
  then show ?case
    using Cons.IH[of "(a + 1, (if chg then b + 1 else b), W')"] acc r by simp
qed

lemma dry_ensureOutputDirs: "ensureOutputDirs H cfg True W = W"
  by (simp add: ensureOutputDirs_def)

text \<open>
  A dry run of \<^verbatim>\<open>processHtmlFile\<close>, and of \<^verbatim>\<open>runRefactorProcess\<close> on any list of
  files, leaves every file as it is and makes no modifying call: it creates no
  directory, no CSS, JS or HTML file and no backup.
\<close>

lemma dry_run_leaves_files:
  "files (snd (processHtmlFile H W htmlFilePath cfg True)) = files W
   \<and> effects (snd (processHtmlFile H W htmlFilePath cfg True)) = effects W
   \<and> files (snd (snd (runRefactorProcess H W cfg True filesToProcess))) = files W
   \<and> effects (snd (snd (runRefactorProcess H W cfg True filesToProcess))) = effects W"
  using dry_processHtmlFile[of H W htmlFilePath cfg]
    dry_processFiles[of H cfg filesToProcess "(0, 0, W)"]
  by (simp add: runRefactorProcess_def dry_ensureOutputDirs)

text \<open>
  Claim C9 asks of a dry run that it writes nothing, which holds, and that it takes
  every decision of a real run and reports what the real run would do, which the code
  misses. The dry-run branch of \<^verbatim>\<open>extractJsFromHtml\<close> leaves the loop body before
  the test for a file at the path of the script, the test the real run makes a few lines
  below. So for the page with one inline script, in a world where \<^verbatim>\<open>index.js\<close>
  exists, the dry run reports that the script goes to \<^verbatim>\<open>index.js\<close> and that
  \<^verbatim>\<open>src\<close> becomes \<^verbatim>\<open>index.js\<close>, and the real run writes the script to the file
  with \<^verbatim>\<open>-conflict-\<close> and the time stamp in its name and puts that name into the
  page. Likewise the dry-run branch of \<^verbatim>\<open>saveCssFile\<close> reports neither a creation nor
  an append nor a skip for a CSS file that exists and is empty, which the real run
  writes.
\<close>

theorem dry_run_misses_script_conflict:
  "files scriptWorld ''/site/index.html'' = Some (html scriptDom)
   \<and> files scriptWorld ''/site/index.js'' = Some ''console.log(1)''
   \<and> reports (snd (processHtmlFile sampleHost scriptWorld ''/site/index.html'' sampleConfig True))
     = [DryRunExtractScript ''index.js'', DryRunScriptSrc ''index.js'',
        DryRunHtmlModified ''/site/index.html'']
   \<and> effects (snd (processHtmlFile sampleHost scriptWorld ''/site/index.html'' sampleConfig False))
     = [EnsureDir ''/site'',
        WriteFile ''/site/index-conflict-1700000000000.js'' ''console.log(1)'',
        CopyFile ''/site/index.html'' ''/site/index.html.bak'',
        WriteFile ''/site/index.html''
          (html [Element ''html'' []
                  [Element ''head'' [] [],
                   Element ''body'' []
                     [Element ''script'' [(''src'', ''index-conflict-1700000000000.js'')] []]]])]
   \<and> reports (snd (saveCssFile sampleHost (cssWorld []) ''.a{color:red}'' ''index''
                      ''/site/index.html'' sampleConfig True))
     = [DryRunSaveCss ''styles/extracted/index.css'']
   \<and> effects (snd (saveCssFile sampleHost (cssWorld []) ''.a{color:red}'' ''index''
                      ''/site/index.html'' sampleConfig False))
     = [EnsureDir ''/site/styles/extracted'',
        WriteFile ''/site/styles/extracted/index.css'' ''.a{color:red}'']"
  by (simp add: all_defs dec.simps Let_def cong: let_weak_cong prod.case_cong_weak)


subsection \<open>A second run\<close>

text \<open>Where the elements of the result of a traversal come from, and traversals that change nothing.\<close>

lemma each_elems:
  "e' \<in> set (elems (snd (each f s d))) \<Longrightarrow>
   \<exists>s0 as ch. (fst e', as, ch) \<in> set (elems d)
     \<and> ((\<exists>s1. snd (f s0 (fst e') as ch) = Keep (fst (snd e'))
              \<and> snd (snd e') = snd (each f s1 ch))
         \<or> (snd (f s0 (fst e') as ch) = Emptied (fst (snd e')) \<and> snd (snd e') = []))"
proof (induction f s d rule: each.induct)
  case (1 f s)
  then show ?case by simp
next
  case (2 f s t ns)
  then show ?case by (cases "each f s ns") auto
next
  case (3 f s tg as ch ns)
  obtain s1 act where f: "f s tg as ch = (s1, act)" by (cases "f s tg as ch")
  obtain s2 ch' where c: "each f s1 ch = (s2, ch')" by (cases "each f s1 ch")
  obtain s3 ns' where n: "each f s2 ns = (s3, ns')" by (cases "each f s2 ns")
  let ?hd = "(case act of Keep as' \<Rightarrow> [Element tg as' ch'] | Emptied as' \<Rightarrow> [Element tg as' []]
              | Removed \<Rightarrow> [])"
  have out: "snd (each f s (Element tg as ch # ns)) = ?hd @ ns'"
    using f c n by simp
  have el: "elems (?hd @ ns') = elems ?hd @ elems ns'"
    by (cases act) simp_all
  from "3.prems" consider (h) "e' \<in> set (elems ?hd)" | (t) "e' \<in> set (elems ns')"
    unfolding out el by auto
  then show ?case
  proof cases
    case t
    then show ?thesis using "3.IH"(2)[OF f[symmetric] c[symmetric]] n by auto
  next
    case h
    show ?thesis
    proof (cases act)
      case (Keep as')
      with h consider "e' = (tg, as', ch')" | "e' \<in> set (elems ch')" by auto
      then show ?thesis
      proof cases
        case 1
        have "snd (f s (fst e') as ch) = Keep (fst (snd e'))
                \<and> snd (snd e') = snd (each f s1 ch)"
          using 1 f c Keep by simp
        moreover have "(fst e', as, ch) \<in> set (elems (Element tg as ch # ns))"
          using 1 by simp
        ultimately show ?thesis by blast
      next
        case 2
        then show ?thesis using "3.IH"(1)[OF f[symmetric]] c by auto
      qed
    next
      case (Emptied as')
      with h have 1: "e' = (tg, as', [])" by simp
      have "snd (f s (fst e') as ch) = Emptied (fst (snd e')) \<and> snd (snd e') = []"
        using 1 f Emptied by simp
      moreover have "(fst e', as, ch) \<in> set (elems (Element tg as ch # ns))"
        using 1 by simp
      ultimately show ?thesis by blast
    next
      case Removed
      with h show ?thesis by simp
    qed
  qed
qed




lemma elems_append: "elems (a @ b) = elems a @ elems b"
  by (induction a rule: elems.induct) simp_all

lemma mapAttrs_no_elems: "elems d = [] \<Longrightarrow> mapAttrs g d = d"
  by (induction g d rule: mapAttrs.induct) simp_all

lemma restyledAttrs_style:
  "map_of (restyledAttrs H as) ''style'' = Some v \<Longrightarrow> blank v"
  by (auto simp: restyledAttrs_def removeAttr_def delete_conv split: option.splits if_splits)

text \<open>The pass over the \<^verbatim>\<open>style\<close> elements leaves none with content.\<close>

lemma styleTagCallback_action:
  "snd (styleTagCallback s tg as ch) = (if pendingStyleTag (tg, as, ch) then Removed else Keep as)"
  by (cases s) (simp add: styleTagCallback_def pendingStyleTag_def Let_def)





lemma styleTag_out: "\<not> list_ex pendingStyleTag (elems (snd (each styleTagCallback s d)))"
proof -
  have "\<not> pendingStyleTag e'" if "e' \<in> set (elems (snd (each styleTagCallback s d)))" for e'
  proof -
    from each_elems[OF that] obtain s0 as ch where
      "(\<exists>s1. snd (styleTagCallback s0 (fst e') as ch) = Keep (fst (snd e'))
              \<and> snd (snd e') = snd (each styleTagCallback s1 ch))
       \<or> (snd (styleTagCallback s0 (fst e') as ch) = Emptied (fst (snd e')) \<and> snd (snd e') = [])"
      by blast
    then obtain s1 where k: "snd (styleTagCallback s0 (fst e') as ch) = Keep (fst (snd e'))"
      and c: "snd (snd e') = snd (each styleTagCallback s1 ch)"
      by (auto simp: styleTagCallback_action split: if_splits)
    from k have np: "\<not> pendingStyleTag (fst e', as, ch)"
      by (auto simp: styleTagCallback_action split: if_splits)
    show ?thesis
    proof (cases "fst e' = ''style''")
      case False
      then show ?thesis by (cases e') (simp add: pendingStyleTag_def)
    next
      case True
      with np have b: "blank (html ch)" by (simp add: pendingStyleTag_def)
      then have "snd (snd e') = ch" using c by (simp add: each_blank_html)
      then show ?thesis using b by (cases e') (simp add: pendingStyleTag_def)
    qed
  qed
  then show ?thesis by (auto simp: list_ex_iff)
qed






lemma restyled_out: "\<not> list_ex pendingStyleAttr (elems (mapAttrs (restyledAttrs H) d))"
  by (auto simp: list_ex_iff elems_mapAttrs pendingStyleAttr_def
      dest: restyledAttrs_style split: option.splits)

lemma mapAttrs_keeps_style_tags:
  assumes "\<not> list_ex pendingStyleTag (elems d)"
  shows "\<not> list_ex pendingStyleTag (elems (mapAttrs g d))"
proof -
  have "\<not> pendingStyleTag (tg, g as, mapAttrs g ch)" if "(tg, as, ch) \<in> set (elems d)"
    for tg as ch
  proof (cases "tg = ''style''")
    case False
    then show ?thesis by (simp add: pendingStyleTag_def)
  next
    case True
    have "\<not> pendingStyleTag (tg, as, ch)" using assms that by (auto simp: list_ex_iff)
    with True have b: "blank (html ch)" by (simp add: pendingStyleTag_def)
    then have "mapAttrs g ch = ch" by (simp add: blank_html_no_elems mapAttrs_no_elems)
    then show ?thesis using b by (simp add: pendingStyleTag_def)
  qed
  then show ?thesis by (auto simp: list_ex_iff elems_mapAttrs)
qed




lemma extractCssChunks_out:
  "\<not> list_ex pendingStyleTag (elems (snd (snd (extractCssChunks H d))))
   \<and> \<not> list_ex pendingStyleAttr (elems (snd (snd (extractCssChunks H d))))"
  unfolding extractCssChunks_dom withoutStyleTags_def
  using styleTag_out mapAttrs_keeps_style_tags restyled_out by blast

text \<open>Adding the link brings no style to extract.\<close>

lemma appendToHeads_no_elems: "elems d = [] \<Longrightarrow> appendToHeads fr d = d"
  by (induction fr d rule: appendToHeads.induct) simp_all

lemma elems_appendToHeads:
  "e \<in> set (elems (appendToHeads fr d)) \<Longrightarrow>
   e \<in> set (elems fr)
   \<or> (\<exists>ch. (fst e, fst (snd e), ch) \<in> set (elems d)
          \<and> snd (snd e) = appendToHeads fr ch @ (if fst e = ''head'' then fr else []))"
proof (induction fr d rule: appendToHeads.induct)
  case (1 fr)
  then show ?case by simp
next
  case (2 fr t ns)
  then show ?case by auto
next
  case (3 fr tg as ch ns)
  from "3.prems" consider
      "e = (tg, as, appendToHeads fr ch @ (if tg = ''head'' then fr else []))"
    | "e \<in> set (elems (appendToHeads fr ch))"
    | "e \<in> set (elems fr)"
    | "e \<in> set (elems (appendToHeads fr ns))"
    by (auto simp: elems_append split: if_splits)
  then show ?case
  proof cases
    case 1
    then show ?thesis by auto
  next
    case 2
    then show ?thesis using "3.IH"(1) by auto
  next
    case 3
    then show ?thesis by simp
  next
    case 4
    then show ?thesis using "3.IH"(2) by auto
  qed
qed

lemma appendToHeads_keeps_styles:
  assumes t: "\<not> list_ex pendingStyleTag (elems d)" and a: "\<not> list_ex pendingStyleAttr (elems d)"
  shows "\<not> list_ex pendingStyleTag (elems (appendToHeads (linkFragment href) d))
         \<and> \<not> list_ex pendingStyleAttr (elems (appendToHeads (linkFragment href) d))"
proof -
  have "\<not> pendingStyleTag e \<and> \<not> pendingStyleAttr e"
    if "e \<in> set (elems (appendToHeads (linkFragment href) d))" for e
  proof -
    from elems_appendToHeads[OF that] consider
        (fr) "e \<in> set (elems (linkFragment href))"
      | (old) ch where "(fst e, fst (snd e), ch) \<in> set (elems d)"
          "snd (snd e) = appendToHeads (linkFragment href) ch
                         @ (if fst e = ''head'' then linkFragment href else [])"
      by blast
    then show ?thesis
    proof cases
      case fr
      then show ?thesis by (simp add: linkFragment_def pendingStyleTag_def pendingStyleAttr_def)
    next
      case old
      have nt: "\<not> pendingStyleTag (fst e, fst (snd e), ch)"
        and na: "\<not> pendingStyleAttr (fst e, fst (snd e), ch)"
        using t a old(1) by (auto simp: list_ex_iff)
      have attr: "\<not> pendingStyleAttr e"
        using na by (cases e) (simp add: pendingStyleAttr_def)
      have tag: "\<not> pendingStyleTag e"
      proof (cases "fst e = ''style''")
        case False
        then show ?thesis by (cases e) (simp add: pendingStyleTag_def)
      next
        case True
        with nt have b: "blank (html ch)" by (simp add: pendingStyleTag_def)
        then have "appendToHeads (linkFragment href) ch = ch"
          by (simp add: blank_html_no_elems appendToHeads_no_elems)
        then have "snd (snd e) = ch" using old(2) True by simp
        then show ?thesis using b by (cases e) (simp add: pendingStyleTag_def)
      qed
      show ?thesis using tag attr by simp
    qed
  qed
  then show ?thesis by (auto simp: list_ex_iff)
qed

lemma addCssLinkToHtmlHead_keeps_styles:
  assumes "\<not> list_ex pendingStyleTag (elems d)" and "\<not> list_ex pendingStyleAttr (elems d)"
  shows "\<not> list_ex pendingStyleTag (elems (snd (addCssLinkToHtmlHead H d p base cfg)))
         \<and> \<not> list_ex pendingStyleAttr (elems (snd (addCssLinkToHtmlHead H d p base cfg)))"
  using assms appendToHeads_keeps_styles[OF assms]
  by (simp add: addCssLinkToHtmlHead_def headFragment_def Let_def)

lemma saveAndLinkCss_keeps_styles:
  assumes "\<not> list_ex pendingStyleTag (elems d)" and "\<not> list_ex pendingStyleAttr (elems d)"
  shows "\<not> list_ex pendingStyleTag (elems (fst (snd (saveAndLinkCss H W d p cfg dry css m))))
     \<and> \<not> list_ex pendingStyleAttr (elems (fst (snd (saveAndLinkCss H W d p cfg dry css m))))"
  using assms addCssLinkToHtmlHead_keeps_styles[OF assms, of H p "generateCssFileBaseName H p cfg" cfg]
  by (auto simp: saveAndLinkCss_def Let_def split: prod.splits option.splits)

text \<open>Script extraction: a document with no inline script, the flag, the result.\<close>

lemma inlineFrom_empty:
  "inlineFrom k xs = [] \<longleftrightarrow> (\<forall>x \<in> set xs. \<not> isInlineScript (fst x) (snd x))"
  by (induction xs arbitrary: k) (auto simp: inlineFrom_def)

lemma scriptTagsToProcess_empty:
  "scriptTagsToProcess d = [] \<longleftrightarrow> \<not> list_ex pendingScript (elems d)"
  by (auto simp: scriptTagsToProcess_eq toProcessFrom_inlineFrom inlineFrom_empty scriptsOf_def
      list_ex_iff pendingScript_def)



lemma scriptCallback_Keep:
  "snd (scriptCallback H cfg False p safe n st tg as ch) = Keep as' \<Longrightarrow>
   as' = as \<and> \<not> pendingScript (tg, as, ch)"
  by (auto simp: scriptCallback_def extractScriptTag_def pendingScript_def Let_def
      split: if_splits)

lemma scriptCallback_Emptied:
  "snd (scriptCallback H cfg False p safe n st tg as ch) = Emptied as' \<Longrightarrow>
   \<exists>v. as' = AList.update ''src'' v as"
  by (auto simp: scriptCallback_def extractScriptTag_def Let_def split: if_splits)

lemma script_each_out:
  assumes e': "e' \<in> set (elems (snd (each (scriptCallback H cfg False p safe n) st d)))"
  shows "\<not> pendingScript e'"
    and "\<not> list_ex pendingStyleTag (elems d) \<Longrightarrow> \<not> pendingStyleTag e'"
    and "\<not> list_ex pendingStyleAttr (elems d) \<Longrightarrow> \<not> pendingStyleAttr e'"
proof -
  let ?f = "scriptCallback H cfg False p safe n"
  obtain tg as' ch' where e: "e' = (tg, as', ch')" by (cases e')
  from each_elems[OF e'] obtain s0 as ch where
    old: "(tg, as, ch) \<in> set (elems d)"
    and how: "(\<exists>s1. snd (?f s0 tg as ch) = Keep as' \<and> ch' = snd (each ?f s1 ch))
       \<or> (snd (?f s0 tg as ch) = Emptied as' \<and> ch' = [])"
    unfolding e by auto
  have bl: "blank (html ch')" if b: "blank (html ch)"
  proof -
    have "snd (each ?f s1 ch) = ch" for s1 using b by (simp add: each_blank_html)
    then have "ch' = ch \<or> ch' = []" using how by auto
    then show ?thesis using b by (auto simp: html_Nil blank_Nil)
  qed
  from how show "\<not> pendingScript e'"
  proof
    assume "\<exists>s1. snd (?f s0 tg as ch) = Keep as' \<and> ch' = snd (each ?f s1 ch)"
    then obtain s1 where k: "snd (?f s0 tg as ch) = Keep as'" by blast
    from scriptCallback_Keep[OF k] have as: "as' = as" and np: "\<not> pendingScript (tg, as, ch)"
      by simp_all
    show ?thesis
      using np bl unfolding e as by (auto simp: pendingScript_def isInlineScript_def)
  next
    assume "snd (?f s0 tg as ch) = Emptied as' \<and> ch' = []"
    then show ?thesis
      unfolding e by (simp add: pendingScript_def isInlineScript_def html_Nil blank_Nil)
  qed
  show "\<not> pendingStyleTag e'" if "\<not> list_ex pendingStyleTag (elems d)"
  proof -
    have "\<not> pendingStyleTag (tg, as, ch)" using that old by (auto simp: list_ex_iff)
    then show ?thesis using bl unfolding e by (auto simp: pendingStyleTag_def)
  qed
  show "\<not> pendingStyleAttr e'" if "\<not> list_ex pendingStyleAttr (elems d)"
  proof -
    have np: "\<not> pendingStyleAttr (tg, as, ch)" using that old by (auto simp: list_ex_iff)
    from how have "map_of as' ''style'' = map_of as ''style''"
      by (auto dest!: scriptCallback_Keep scriptCallback_Emptied simp: update_conv')
    then show ?thesis using np unfolding e by (simp add: pendingStyleAttr_def)
  qed
qed

lemma extractJsFromHtml_out:
  assumes "\<not> list_ex pendingStyleTag (elems d)" and "\<not> list_ex pendingStyleAttr (elems d)"
  shows "quiescent (fst (snd (snd (extractJsFromHtml H W d p b cfg False))))"
proof (cases "scriptTagsToProcess d = []")
  case True
  then show ?thesis
    using assms scriptTagsToProcess_empty[of d]
    by (simp add: extractJsFromHtml_def quiescent_def)
next
  case False
  let ?safe = "generateSafeBaseName H b ''JS'' cfg"
  let ?n = "length (scriptTagsToProcess d)"
  let ?st = "\<lparr>originalIndex = 0, loopIndex = 0, loopWorld = W, extractedJsFiles = [],
              jsModifiedInHtml = False\<rparr>"
  have d': "fst (snd (snd (extractJsFromHtml H W d p b cfg False)))
              = snd (each (scriptCallback H cfg False p ?safe ?n) ?st d)"
    using False by (auto simp: extractJsFromHtml_def Let_def split: prod.splits)
  show ?thesis
    unfolding d' quiescent_def list_ex_iff
    using script_each_out[of _ H cfg p ?safe ?n ?st d] assms by blast
qed









lemma refactorDocument_out:
  "quiescent (fst (snd (snd (refactorDocument H W p cfg False c))))"
proof -
  let ?d0 = "cheerio_load H c"
  obtain css m d1 where e: "extractCssFromHtml H ?d0 p (path_basename H p ''.html'')
      = (css, m, d1)" by (metis prod_cases3)
  have "d1 = snd (snd (extractCssChunks H ?d0))"
    using e by (auto simp: extractCssFromHtml_def split: prod.splits)
  then have q1: "\<not> list_ex pendingStyleTag (elems d1)" "\<not> list_ex pendingStyleAttr (elems d1)"
    using extractCssChunks_out[of H ?d0] by simp_all
  obtain l d2 W1 where s: "saveAndLinkCss H W d1 p cfg False css m = (l, d2, W1)"
    by (metis prod_cases3)
  have q2: "\<not> list_ex pendingStyleTag (elems d2)" "\<not> list_ex pendingStyleAttr (elems d2)"
    using saveAndLinkCss_keeps_styles[OF q1, of H W p cfg False css m] s by simp_all
  obtain jm js d3 W2 where j: "extractJsFromHtml H W1 d2 p
      (sanitizeStringForFilename (path_basename H p ''.html'')) cfg False = (jm, js, d3, W2)"
    by (metis prod_cases4)
  have "quiescent d3"
    using extractJsFromHtml_out[OF q2, of H W1 p
        "sanitizeStringForFilename (path_basename H p ''.html'')" cfg] j by simp
  then show ?thesis using e s j by (simp add: refactorDocument_def Let_def)
qed




text \<open>
  Joining adjacent text nodes changes neither the serialised document nor what there is
  to extract, so a parser that gives a serialised document back up to such joining finds
  nothing to extract where the document had nothing.
\<close>

lemma html_mergeText: "html (mergeText d) = html d"
  by (induction d rule: mergeText.induct) (simp_all add: html_def)

lemma elems_mergeText:
  "elems (mergeText d) = map (\<lambda>e. (fst e, fst (snd e), mergeText (snd (snd e)))) (elems d)"
  by (induction d rule: mergeText.induct) simp_all

lemma mergeText_quiescent: "quiescent d \<Longrightarrow> quiescent (mergeText d)"
  by (auto simp: quiescent_def list_ex_iff elems_mergeText pendingStyleTag_def
      pendingStyleAttr_def pendingScript_def isInlineScript_def html_mergeText)



end
